theory Spec2Isabelle
  imports Complex_Main "HOL-Library.Finite_Map" "HOL-Library.Sublist"
begin

section \<open>JavaScript values\<close>

text \<open>
  The retry executor (\<^verbatim>\<open>src/utils/retry.ts\<close>) and the error taxonomy
  (\<^verbatim>\<open>src/utils/errors.ts\<close>) handle arbitrary thrown values, so the embedding starts with
  the part of the JavaScript value universe they can tell apart:
  \<^item> the primitives \<^verbatim>\<open>undefined\<close>, \<^verbatim>\<open>null\<close>, booleans, strings, the numbers that are
    integers printed in plain decimal notation (\<open>JNum\<close>), \<^verbatim>\<open>NaN\<close> and the two infinities;
  \<^item> arrays and plain objects (own data properties over \<^verbatim>\<open>Object.prototype\<close>; there are
    no function values, so an own property called \<^verbatim>\<open>toString\<close> is never callable);
  \<^item> instances of \<^verbatim>\<open>Error\<close> that are not \<^verbatim>\<open>EmailError\<close>s, with their \<^verbatim>\<open>name\<close> and their
    string \<^verbatim>\<open>message\<close>;
  \<^item> instances of the nine concrete subclasses of \<^verbatim>\<open>EmailError\<close>, with \<^verbatim>\<open>message\<close>,
    \<^verbatim>\<open>cause\<close> and \<^verbatim>\<open>context\<close> (\<open>None\<close> is \<^verbatim>\<open>undefined\<close>).

  Strings are lists of 8-bit characters. Values are compared structurally: object identity
  is not modelled.
\<close>

datatype error_class =
    SMTPConfigurationError
  | SMTPConnectionError
  | SMTPAuthenticationError
  | EmailValidationError
  | TemplateNotFoundError
  | TemplateRenderError
  | EmailSendError
  | RateLimitError
  | AttachmentError

datatype jsval =
    JUndefined
  | JNull
  | JBool bool
  | JNum int
  | JNaN
  | JInfinity
  | JNegInfinity
  | JStr string
  | JArray "jsval list"
  | JObject "(string, jsval) fmap"
  | JError string string
  | JEmailError error_class string "jsval option" "(string, jsval) fmap option"

type_synonym obj = "(string, jsval) fmap"

text \<open>The \<^verbatim>\<open>code\<close> and \<^verbatim>\<open>retryable\<close> fields that each subclass of \<^verbatim>\<open>EmailError\<close> fixes.\<close>

fun code :: "error_class \<Rightarrow> string" where
  "code SMTPConfigurationError = ''SMTP_CONFIG_ERROR''"
| "code SMTPConnectionError = ''SMTP_CONNECTION_ERROR''"
| "code SMTPAuthenticationError = ''SMTP_AUTH_ERROR''"
| "code EmailValidationError = ''EMAIL_VALIDATION_ERROR''"
| "code TemplateNotFoundError = ''TEMPLATE_NOT_FOUND''"
| "code TemplateRenderError = ''TEMPLATE_RENDER_ERROR''"
| "code EmailSendError = ''EMAIL_SEND_ERROR''"
| "code RateLimitError = ''RATE_LIMIT_ERROR''"
| "code AttachmentError = ''ATTACHMENT_ERROR''"

fun retryable :: "error_class \<Rightarrow> bool" where
  "retryable SMTPConfigurationError = False"
| "retryable SMTPConnectionError = True"
| "retryable SMTPAuthenticationError = False"
| "retryable EmailValidationError = False"
| "retryable TemplateNotFoundError = False"
| "retryable TemplateRenderError = False"
| "retryable EmailSendError = True"
| "retryable RateLimitError = True"
| "retryable AttachmentError = False"

text \<open>\<^verbatim>\<open>this.name = this.constructor.name\<close> in the constructor of \<^verbatim>\<open>EmailError\<close>.\<close>

fun class_name :: "error_class \<Rightarrow> string" where
  "class_name SMTPConfigurationError = ''SMTPConfigurationError''"
| "class_name SMTPConnectionError = ''SMTPConnectionError''"
| "class_name SMTPAuthenticationError = ''SMTPAuthenticationError''"
| "class_name EmailValidationError = ''EmailValidationError''"
| "class_name TemplateNotFoundError = ''TemplateNotFoundError''"
| "class_name TemplateRenderError = ''TemplateRenderError''"
| "class_name EmailSendError = ''EmailSendError''"
| "class_name RateLimitError = ''RateLimitError''"
| "class_name AttachmentError = ''AttachmentError''"

subsection \<open>Operators of the language\<close>

text \<open>\<^verbatim>\<open>v instanceof EmailError\<close> and \<^verbatim>\<open>v instanceof Error\<close>.\<close>

fun is_EmailError :: "jsval \<Rightarrow> bool" where
  "is_EmailError (JEmailError c msg cause ctx) = True"
| "is_EmailError _ = False"

fun is_Error :: "jsval \<Rightarrow> bool" where
  "is_Error (JError name msg) = True"
| "is_Error (JEmailError c msg cause ctx) = True"
| "is_Error _ = False"

text \<open>Truthiness (\<^verbatim>\<open>!v\<close> is its negation) and \<^verbatim>\<open>typeof v\<close>.\<close>

fun js_truthy :: "jsval \<Rightarrow> bool" where
  "js_truthy JUndefined = False"
| "js_truthy JNull = False"
| "js_truthy (JBool b) = b"
| "js_truthy (JNum n) = (n \<noteq> 0)"
| "js_truthy JNaN = False"
| "js_truthy (JStr s) = (s \<noteq> [])"
| "js_truthy _ = True"

fun js_typeof :: "jsval \<Rightarrow> string" where
  "js_typeof JUndefined = ''undefined''"
| "js_typeof (JBool b) = ''boolean''"
| "js_typeof (JNum n) = ''number''"
| "js_typeof JNaN = ''number''"
| "js_typeof JInfinity = ''number''"
| "js_typeof JNegInfinity = ''number''"
| "js_typeof (JStr s) = ''string''"
| "js_typeof _ = ''object''"

text \<open>
  \<^verbatim>\<open>"message" in v\<close> and \<^verbatim>\<open>v.message\<close>. The code evaluates \<^verbatim>\<open>in\<close> on objects only (a
  \<^verbatim>\<open>typeof\<close> test guards it), so its value on primitives is immaterial. Every \<^verbatim>\<open>Error\<close>
  has a \<^verbatim>\<open>message\<close>, at least through \<^verbatim>\<open>Error.prototype\<close>.
\<close>

fun has_message :: "jsval \<Rightarrow> bool" where
  "has_message (JObject props) = (''message'' |\<in>| fmdom props)"
| "has_message (JError name msg) = True"
| "has_message (JEmailError c msg cause ctx) = True"
| "has_message _ = False"

fun js_message :: "jsval \<Rightarrow> jsval" where
  "js_message (JObject props) =
     (case fmlookup props ''message'' of None \<Rightarrow> JUndefined | Some v \<Rightarrow> v)"
| "js_message (JError name msg) = JStr msg"
| "js_message (JEmailError c msg cause ctx) = JStr msg"
| "js_message _ = JUndefined"

text \<open>Object spread \<^verbatim>\<open>{ ...base, ...src }\<close>: spreading \<^verbatim>\<open>undefined\<close> adds nothing.\<close>

fun js_spread :: "obj \<Rightarrow> obj option \<Rightarrow> obj" where
  "js_spread base None = base"
| "js_spread base (Some src) = base ++\<^sub>f src"

subsection \<open>Strings\<close>

text \<open>
  \<^verbatim>\<open>s.toLowerCase()\<close> on the letters A to Z (every other character is left alone), and
  \<^verbatim>\<open>s.includes(p)\<close>.
\<close>

definition lower_char :: "char \<Rightarrow> char" where
  "lower_char c =
     (case map_of (zip ''ABCDEFGHIJKLMNOPQRSTUVWXYZ'' ''abcdefghijklmnopqrstuvwxyz'') c of
        None \<Rightarrow> c
      | Some l \<Rightarrow> l)"

definition toLowerCase :: "string \<Rightarrow> string" where
  "toLowerCase s = map lower_char s"

fun js_includes :: "string \<Rightarrow> string \<Rightarrow> bool" where
  "js_includes [] p = (p = [])"
| "js_includes (c # cs) p = (prefix p (c # cs) \<or> js_includes cs p)"

text \<open>The decimal form of an integer, as a template literal or \<^verbatim>\<open>String\<close> prints it.\<close>

fun digits :: "nat \<Rightarrow> string" where
  "digits n =
     (if n < 10 then [''0123456789'' ! n]
      else digits (n div 10) @ [''0123456789'' ! (n mod 10)])"

declare digits.simps [simp del]

definition js_number_string :: "int \<Rightarrow> string" where
  "js_number_string n = (if n < 0 then CHR ''-'' # digits (nat (- n)) else digits (nat n))"

text \<open>\<^verbatim>\<open>Array.prototype.join\<close> with the default separator.\<close>

fun js_join :: "string list \<Rightarrow> string" where
  "js_join [] = []"
| "js_join [x] = x"
| "js_join (x # y # ys) = x @ '','' @ js_join (y # ys)"

text \<open>
  \<^verbatim>\<open>String(v)\<close>. \<open>None\<close> stands for the \<^verbatim>\<open>TypeError\<close> that the conversion throws when an
  object shadows \<^verbatim>\<open>toString\<close> with a value that cannot be called. An array joins the
  conversions of its elements, with \<^verbatim>\<open>null\<close> and \<^verbatim>\<open>undefined\<close> as empty strings; an
  \<^verbatim>\<open>Error\<close> prints its name and message.
\<close>

fun js_String :: "jsval \<Rightarrow> string option" where
  "js_String JUndefined = Some ''undefined''"
| "js_String JNull = Some ''null''"
| "js_String (JBool b) = Some (if b then ''true'' else ''false'')"
| "js_String (JNum n) = Some (js_number_string n)"
| "js_String JNaN = Some ''NaN''"
| "js_String JInfinity = Some ''Infinity''"
| "js_String JNegInfinity = Some ''-Infinity''"
| "js_String (JStr s) = Some s"
| "js_String (JArray xs) =
     map_option js_join
       (those (map (\<lambda>x. case x of JUndefined \<Rightarrow> Some [] | JNull \<Rightarrow> Some [] | _ \<Rightarrow> js_String x) xs))"
| "js_String (JObject props) =
     (if ''toString'' |\<in>| fmdom props then None else Some ''[object Object]'')"
| "js_String (JError name msg) =
     Some (if name = [] then msg else if msg = [] then name else name @ '': '' @ msg)"
| "js_String (JEmailError c msg cause ctx) =
     Some (if msg = [] then class_name c else class_name c @ '': '' @ msg)"

definition to_primitive_TypeError :: jsval where
  "to_primitive_TypeError = JError ''TypeError'' ''Cannot convert object to primitive value''"

section \<open>The error taxonomy: \<^verbatim>\<open>isRetryableError\<close> and \<^verbatim>\<open>wrapError\<close>\<close>

definition transientMessages :: "string list" where
  "transientMessages =
     [''ETIMEDOUT'', ''ECONNRESET'', ''ENOTFOUND'', ''ECONNREFUSED'', ''timeout'', ''network'']"

definition isRetryableError :: "jsval \<Rightarrow> bool" where
  "isRetryableError error =
     (case error of
        JEmailError c msg cause ctx \<Rightarrow> retryable c
      | _ \<Rightarrow>
          if \<not> js_truthy error \<or> js_typeof error \<noteq> ''object'' \<or> \<not> has_message error
          then False
          else (case js_message error of
                  JStr message \<Rightarrow>
                    list_ex (\<lambda>msg. js_includes (toLowerCase message) (toLowerCase msg))
                      transientMessages
                | _ \<Rightarrow> False))"

text \<open>
  \<^verbatim>\<open>wrapError\<close> returns \<open>Inr\<close> of the classified error; \<open>Inl\<close> is the exception that
  \<^verbatim>\<open>String(error)\<close> raises in the last branch.
\<close>

definition wrapError :: "jsval \<Rightarrow> obj option \<Rightarrow> jsval + jsval" where
  "wrapError error context =
     (case error of
        JEmailError c msg cause ctx \<Rightarrow> Inr error
      | JError name msg \<Rightarrow>
          (let message = toLowerCase msg in
           if js_includes message ''auth'' then
             Inr (JEmailError SMTPAuthenticationError (''Authentication failed: '' @ msg)
                    (Some error) context)
           else if js_includes message ''connect'' then
             Inr (JEmailError SMTPConnectionError (''Connection failed: '' @ msg)
                    (Some error) context)
           else
             Inr (JEmailError EmailSendError (''Email operation failed: '' @ msg)
                    (Some error) context))
      | _ \<Rightarrow>
          (case js_String error of
             None \<Rightarrow> Inl to_primitive_TypeError
           | Some s \<Rightarrow>
               Inr (JEmailError EmailSendError (''Unknown error occurred: '' @ s) None context)))"

text \<open>
  The transport has a classifier of its own for the failures of \<^verbatim>\<open>sendMail\<close>,
  \<^verbatim>\<open>categorizeSmtpError\<close> (\<^verbatim>\<open>src/transport/nodemailerTransport.ts\<close>, lines 199 to 245).
  \<open>error_message\<close> is \<^verbatim>\<open>error.message\<close> of an \<^verbatim>\<open>Error\<close>, a string.
\<close>

definition error_message :: "jsval \<Rightarrow> string" where
  "error_message error = (case js_message error of JStr msg \<Rightarrow> msg | _ \<Rightarrow> [])"

definition categorizeSmtpError :: "jsval \<Rightarrow> obj option \<Rightarrow> jsval + jsval" where
  "categorizeSmtpError error context =
     (if \<not> is_Error error then
        (case js_String error of
           None \<Rightarrow> Inl to_primitive_TypeError
         | Some s \<Rightarrow>
             Inr (JEmailError EmailSendError (''Unknown SMTP error: '' @ s) None context))
      else
        (let message = toLowerCase (error_message error) in
         if js_includes message ''auth'' \<or> js_includes message ''login''
            \<or> js_includes message ''password'' then
           Inr (JEmailError SMTPAuthenticationError
                  (''SMTP authentication failed: '' @ error_message error) (Some error) context)
         else if js_includes message ''connect'' \<or> js_includes message ''timeout''
            \<or> js_includes message ''enotfound'' then
           Inr (JEmailError SMTPConnectionError
                  (''SMTP connection failed: '' @ error_message error) (Some error) context)
         else
           Inr (JEmailError EmailSendError
                  (''SMTP send failed: '' @ error_message error) (Some error) context)))"

section \<open>Numbers\<close>

text \<open>
  The delays and the multiplier are JavaScript numbers: IEEE 754 binary64 values, and every
  arithmetic operation on them rounds its exact result to the nearest such value, a tie to
  the one with an even significand. \<open>Fin x\<close> is the finite number of value \<open>x\<close> (the two
  zeros are not told apart: nothing the executor computes depends on the sign of a zero).

  \<open>expo x\<close> is the exponent of the binade of \<open>x\<close>, from -1022 (which also serves the
  subnormal numbers) to 1023, and 1024 from \<open>2 ^ 1024\<close> on; \<open>fl x\<close> is \<open>x\<close> rounded to a
  multiple of \<open>2 powi (expo x - 52)\<close>, or an infinity when the rounded value leaves the
  range.
\<close>

datatype number = Fin real | PosInf | NegInf | NaN

primrec halvings :: "nat \<Rightarrow> real \<Rightarrow> int" where
  "halvings 0 x = 0"
| "halvings (Suc n) x = (if x < 2 then 0 else halvings n (x / 2) + 1)"

primrec doublings :: "nat \<Rightarrow> real \<Rightarrow> int" where
  "doublings 0 x = 0"
| "doublings (Suc n) x = (if 1 \<le> x then 0 else doublings n (2 * x) - 1)"

definition expo :: "real \<Rightarrow> int" where
  "expo x = (if 1 \<le> \<bar>x\<bar> then halvings 1024 \<bar>x\<bar> else doublings 1022 \<bar>x\<bar>)"

definition round_half_even :: "real \<Rightarrow> int" where
  "round_half_even x =
     (let f = \<lfloor>x\<rfloor>; d = x - of_int f
      in if d < 1 / 2 then f else if 1 / 2 < d then f + 1 else if even f then f else f + 1)"

definition fl :: "real \<Rightarrow> number" where
  "fl x =
     (if x = 0 then Fin 0
      else
        (let ulp = 2 powi (expo x - 52);
             y = of_int (round_half_even (x / ulp)) * ulp
         in if 1024 \<le> expo y then (if 0 < x then PosInf else NegInf) else Fin y))"

text \<open>The operators \<^verbatim>\<open>+\<close>, \<^verbatim>\<open>-\<close> and \<^verbatim>\<open>*\<close> on numbers.\<close>

fun num_neg :: "number \<Rightarrow> number" where
  "num_neg (Fin x) = Fin (- x)"
| "num_neg PosInf = NegInf"
| "num_neg NegInf = PosInf"
| "num_neg NaN = NaN"

fun num_add :: "number \<Rightarrow> number \<Rightarrow> number" where
  "num_add NaN b = NaN"
| "num_add a NaN = NaN"
| "num_add PosInf NegInf = NaN"
| "num_add NegInf PosInf = NaN"
| "num_add PosInf b = PosInf"
| "num_add a PosInf = PosInf"
| "num_add NegInf b = NegInf"
| "num_add a NegInf = NegInf"
| "num_add (Fin x) (Fin y) = fl (x + y)"

definition num_sub :: "number \<Rightarrow> number \<Rightarrow> number" where
  "num_sub a b = num_add a (num_neg b)"

fun num_mul :: "number \<Rightarrow> number \<Rightarrow> number" where
  "num_mul NaN b = NaN"
| "num_mul a NaN = NaN"
| "num_mul (Fin x) (Fin y) = fl (x * y)"
| "num_mul (Fin x) PosInf = (if x = 0 then NaN else if 0 < x then PosInf else NegInf)"
| "num_mul (Fin x) NegInf = (if x = 0 then NaN else if 0 < x then NegInf else PosInf)"
| "num_mul PosInf (Fin y) = (if y = 0 then NaN else if 0 < y then PosInf else NegInf)"
| "num_mul NegInf (Fin y) = (if y = 0 then NaN else if 0 < y then NegInf else PosInf)"
| "num_mul PosInf PosInf = PosInf"
| "num_mul PosInf NegInf = NegInf"
| "num_mul NegInf PosInf = NegInf"
| "num_mul NegInf NegInf = PosInf"

text \<open>
  \<^verbatim>\<open>Math.min\<close> and \<^verbatim>\<open>Math.max\<close> of two numbers (\<^verbatim>\<open>NaN\<close> if either is), and \<^verbatim>\<open>Math.round\<close>,
  which rounds to the nearest integer, a half towards plus infinity, without any error.
\<close>

fun Math_min :: "number \<Rightarrow> number \<Rightarrow> number" where
  "Math_min NaN b = NaN"
| "Math_min a NaN = NaN"
| "Math_min NegInf b = NegInf"
| "Math_min a NegInf = NegInf"
| "Math_min PosInf b = b"
| "Math_min a PosInf = a"
| "Math_min (Fin x) (Fin y) = Fin (min x y)"

fun Math_max :: "number \<Rightarrow> number \<Rightarrow> number" where
  "Math_max NaN b = NaN"
| "Math_max a NaN = NaN"
| "Math_max PosInf b = PosInf"
| "Math_max a PosInf = PosInf"
| "Math_max NegInf b = b"
| "Math_max a NegInf = a"
| "Math_max (Fin x) (Fin y) = Fin (max x y)"

fun Math_round :: "number \<Rightarrow> number" where
  "Math_round (Fin x) = Fin (of_int \<lfloor>x + 1 / 2\<rfloor>)"
| "Math_round a = a"

text \<open>
  \<^verbatim>\<open>Math.pow\<close> is not fixed by the language beyond its special cases (its result is an
  approximation that the implementation chooses), so the executor takes it as a parameter
  \<open>pow\<close>, from a base and an integer exponent to a number. \<open>pow_rounded\<close> is the instance
  that rounds the exact power; the examples use it. At the exponent 0 the language fixes
  the result 1.
\<close>

definition pow_rounded :: "number \<Rightarrow> int \<Rightarrow> number" where
  "pow_rounded b n =
     (if n = 0 then Fin 1
      else
        (case b of
           NaN \<Rightarrow> NaN
         | Fin x \<Rightarrow>
             if 0 < n then fl (x ^ nat n)
             else if x = 0 then PosInf
             else fl (1 / x ^ nat (- n))
         | PosInf \<Rightarrow> if 0 < n then PosInf else Fin 0
         | NegInf \<Rightarrow> if 0 < n then (if even n then PosInf else NegInf) else Fin 0))"


text \<open>
  A number as a value and in a template literal. The finite numbers that the executor
  logs are integers, since they come out of \<^verbatim>\<open>Math.round\<close>.
\<close>

fun jsval_of_number :: "number \<Rightarrow> jsval" where
  "jsval_of_number (Fin x) = JNum \<lfloor>x\<rfloor>"
| "jsval_of_number PosInf = JInfinity"
| "jsval_of_number NegInf = JNegInfinity"
| "jsval_of_number NaN = JNaN"

fun number_string :: "number \<Rightarrow> string" where
  "number_string (Fin x) = js_number_string \<lfloor>x\<rfloor>"
| "number_string PosInf = ''Infinity''"
| "number_string NegInf = ''-Infinity''"
| "number_string NaN = ''NaN''"

section \<open>The retry executor\<close>

text \<open>
  \<^verbatim>\<open>maxAttempts\<close> is an integer; the delays and the multiplier are numbers.
\<close>

record RetryConfig =
  maxAttempts :: int
  initialDelay :: number
  maxDelay :: number
  backoffMultiplier :: number
  jitter :: bool

record RetryState =
  attempt :: int
  totalDelay :: number
  errors :: "jsval list"

definition DEFAULT_RETRY_CONFIG :: RetryConfig where
  "DEFAULT_RETRY_CONFIG =
     \<lparr>maxAttempts = 3, initialDelay = Fin 1000, maxDelay = Fin 30000,
      backoffMultiplier = Fin 2,
      jitter = True\<rparr>"

definition RetryConfigs_smtp :: RetryConfig where
  "RetryConfigs_smtp =
     \<lparr>maxAttempts = 3, initialDelay = Fin 2000, maxDelay = Fin 10000,
      backoffMultiplier = Fin 2,
      jitter = True\<rparr>"

definition RetryConfigs_template :: RetryConfig where
  "RetryConfigs_template =
     \<lparr>maxAttempts = 2, initialDelay = Fin 500, maxDelay = Fin 2000,
      backoffMultiplier = Fin 2,
      jitter = False\<rparr>"

definition RetryConfigs_connection :: RetryConfig where
  "RetryConfigs_connection =
     \<lparr>maxAttempts = 5, initialDelay = Fin 1000, maxDelay = Fin 30000,
      backoffMultiplier = Fin (3 / 2),
      jitter = True\<rparr>"

text \<open>
  What \<^verbatim>\<open>execute\<close> does to the world outside it: the number of times it has invoked the
  operation, the number of values it has drawn from \<^verbatim>\<open>Math.random\<close>, the delays it has slept
  and the lines it has logged (level, message, context, cause), oldest first. The draws of
  \<^verbatim>\<open>Math.random\<close> are given by their values, \<open>random i\<close> for the \<open>i\<close>-th draw.
\<close>

datatype level = Debug | Info | Warn

record world =
  calls :: nat
  draws :: nat
  sleeps :: "number list"
  logs :: "(level \<times> string \<times> obj \<times> jsval option) list"

definition logger :: "level \<Rightarrow> string \<Rightarrow> obj \<Rightarrow> jsval option \<Rightarrow> world \<Rightarrow> world" where
  "logger lvl msg ctx cause w = w\<lparr>logs := logs w @ [(lvl, msg, ctx, cause)]\<rparr>"

text \<open>
  \<^verbatim>\<open>calculateDelay\<close>; \<open>rnd\<close> is the value of \<^verbatim>\<open>Math.random()\<close>, read when \<^verbatim>\<open>jitter\<close> is
  set. The parameter \<^verbatim>\<open>attempt\<close> of the source is \<open>attemptNumber\<close> here. The literal
  \<^verbatim>\<open>0.1\<close> is the number nearest to a tenth; 0.5, 2 and 0 are numbers as they are.
\<close>

definition calculateDelay ::
  "(number \<Rightarrow> int \<Rightarrow> number) \<Rightarrow> RetryConfig \<Rightarrow> int \<Rightarrow> real \<Rightarrow> number" where
  "calculateDelay pow cfg attemptNumber rnd =
     (let delay = num_mul (initialDelay cfg) (pow (backoffMultiplier cfg) (attemptNumber - 1));
          delay = Math_min delay (maxDelay cfg);
          delay = (if jitter cfg then
                     (let jitterRange = num_mul delay (fl (1 / 10));
                          jit = num_mul (num_mul (num_sub (Fin rnd) (Fin (1 / 2))) (Fin 2))
                                  jitterRange
                      in num_add delay jit)
                   else delay)
      in Math_max (Fin 0) (Math_round delay))"

text \<open>
  How a call of \<^verbatim>\<open>execute\<close> ends: by the \<^verbatim>\<open>return\<close> of line 64, by a \<^verbatim>\<open>throw\<close> inside the
  loop (lines 95 and 106, and the exception that \<^verbatim>\<open>String(error)\<close> may raise at line 67), or
  by the \<^verbatim>\<open>throw\<close> of line 124 after the loop.
\<close>

datatype outcome = Returned jsval | Thrown jsval | ThrownAfterLoop jsval

text \<open>\<^verbatim>\<open>error instanceof Error ? error : new Error(String(error))\<close>\<close>

definition wrap_thrown :: "jsval \<Rightarrow> jsval option" where
  "wrap_thrown error =
     (if is_Error error then Some error else map_option (JError ''Error'') (js_String error))"

text \<open>The value thrown where \<^verbatim>\<open>shouldRetry\<close> is false (lines 85 to 107).\<close>

definition final_error :: "RetryState \<Rightarrow> obj option \<Rightarrow> jsval \<Rightarrow> jsval \<Rightarrow> jsval" where
  "final_error state context error wrappedError =
     (case error of
        JEmailError c msg cause ctx \<Rightarrow>
          JEmailError c
            (''Operation failed after '' @ js_number_string (attempt state) @ '' attempts: '' @ msg)
            (Some error)
            (Some (js_spread
                     (js_spread
                        (fmap_of_list
                           [(''attempts'', JNum (attempt state)),
                            (''allErrors'', JArray (map js_message (errors state)))])
                        context)
                     ctx))
      | _ \<Rightarrow> wrappedError)"

text \<open>
  The \<^verbatim>\<open>catch\<close> block (lines 65 to 120): \<open>Inl\<close> leaves \<^verbatim>\<open>execute\<close>, \<open>Inr\<close> goes round the
  loop again.
\<close>

definition catch_block ::
  "(number \<Rightarrow> int \<Rightarrow> number) \<Rightarrow> RetryConfig \<Rightarrow> (nat \<Rightarrow> real) \<Rightarrow> obj option \<Rightarrow> RetryState \<Rightarrow> world \<Rightarrow> jsval \<Rightarrow>
     (outcome \<times> world) + (RetryState \<times> world)" where
  "catch_block pow cfg random context state0 w0 error =
     (case wrap_thrown error of
        None \<Rightarrow> Inl (Thrown to_primitive_TypeError, w0)
      | Some wrappedError \<Rightarrow>
          (let state = state0\<lparr>errors := errors state0 @ [wrappedError]\<rparr>;
               isLastAttempt = (attempt state \<ge> maxAttempts cfg);
               shouldRetry = (\<not> isLastAttempt \<and> isRetryableError wrappedError);
               w = logger Warn ''Operation failed''
                     (js_spread
                        (fmap_of_list
                           [(''attempt'', JNum (attempt state)),
                            (''maxAttempts'', JNum (maxAttempts cfg)),
                            (''willRetry'', JBool shouldRetry),
                            (''error'', js_message wrappedError)])
                        context)
                     (Some wrappedError) w0
           in if \<not> shouldRetry then Inl (Thrown (final_error state context error wrappedError), w)
              else
                (let delay = calculateDelay pow cfg (attempt state) (random (draws w));
                     w = (if jitter cfg then w\<lparr>draws := Suc (draws w)\<rparr> else w);
                     state = state\<lparr>totalDelay := num_add (totalDelay state) delay\<rparr>;
                     w = logger Debug ''Waiting before retry''
                           (js_spread
                              (fmap_of_list
                                 [(''delay'', JStr (number_string delay @ ''ms'')),
                                  (''nextAttempt'', JNum (attempt state + 1))])
                              context)
                           None w;
                     w = w\<lparr>sleeps := sleeps w @ [delay]\<rparr>
                 in Inr (state, w))))"

text \<open>
  One turn of the \<^verbatim>\<open>while\<close> loop (lines 45 to 120). \<open>operation i\<close> is what the \<open>i\<close>-th
  invocation of the operation does, counted from 0: \<open>Inr\<close> a value it resolves with,
  \<open>Inl\<close> a value it rejects with.
\<close>

definition loop_body ::
  "(number \<Rightarrow> int \<Rightarrow> number) \<Rightarrow> RetryConfig \<Rightarrow> (nat \<Rightarrow> jsval + jsval) \<Rightarrow> (nat \<Rightarrow> real) \<Rightarrow> obj option \<Rightarrow>
     RetryState \<Rightarrow> world \<Rightarrow> (outcome \<times> world) + (RetryState \<times> world)" where
  "loop_body pow cfg operation random context state0 w0 =
     (let state = state0\<lparr>attempt := attempt state0 + 1\<rparr>;
          w = logger Debug ''Executing operation''
                (js_spread
                   (fmap_of_list
                      [(''attempt'', JNum (attempt state)),
                       (''maxAttempts'', JNum (maxAttempts cfg))])
                   context)
                None w0;
          r = operation (calls w);
          w = w\<lparr>calls := Suc (calls w)\<rparr>
      in case r of
           Inr result \<Rightarrow>
             Inl (Returned result,
                  if attempt state > 1 then
                    logger Info ''Operation succeeded after retry''
                      (js_spread
                         (fmap_of_list
                            [(''attempt'', JNum (attempt state)),
                             (''totalDelay'', jsval_of_number (totalDelay state))])
                         context)
                      None w
                  else w)
         | Inl error \<Rightarrow> catch_block pow cfg random context state w error)"

function execute_loop ::
  "(number \<Rightarrow> int \<Rightarrow> number) \<Rightarrow> RetryConfig \<Rightarrow> (nat \<Rightarrow> jsval + jsval) \<Rightarrow> (nat \<Rightarrow> real) \<Rightarrow> obj option \<Rightarrow>
     RetryState \<Rightarrow> world \<Rightarrow> outcome \<times> world" where
  "execute_loop pow cfg operation random context state w =
     (if attempt state < maxAttempts cfg then
        (case loop_body pow cfg operation random context state w of
           Inl result \<Rightarrow> result
         | Inr (state', w') \<Rightarrow> execute_loop pow cfg operation random context state' w')
      else
        (ThrownAfterLoop (if errors state = [] then JUndefined else last (errors state)), w))"
  by pat_completeness auto
termination
  by (relation "measure (\<lambda>(pow, cfg, operation, random, context, state, w).
                  nat (maxAttempts cfg - attempt state))")
     (auto simp: loop_body_def catch_block_def Let_def split: sum.splits option.splits if_splits)

declare execute_loop.simps [simp del]

definition execute ::
  "(number \<Rightarrow> int \<Rightarrow> number) \<Rightarrow> RetryConfig \<Rightarrow> (nat \<Rightarrow> jsval + jsval) \<Rightarrow> (nat \<Rightarrow> real) \<Rightarrow> obj option \<Rightarrow> outcome \<times> world" where
  "execute pow cfg operation random context =
     execute_loop pow cfg operation random context
       \<lparr>attempt = 0, totalDelay = Fin 0, errors = []\<rparr>
       \<lparr>calls = 0, draws = 0, sleeps = [], logs = []\<rparr>"

section \<open>Notions used to state the properties\<close>

text \<open>
  \<open>contains_ignoring_case s p\<close>: some substring of \<open>s\<close> equals \<open>p\<close> up to the case of
  its letters.
\<close>

definition contains_ignoring_case :: "string \<Rightarrow> string \<Rightarrow> bool" where
  "contains_ignoring_case s p \<longleftrightarrow>
     (\<exists>xs t ys. s = xs @ t @ ys \<and> toLowerCase t = toLowerCase p)"

text \<open>The own properties of an optional object: \<^verbatim>\<open>undefined\<close> has none.\<close>

definition own_props :: "obj option \<Rightarrow> obj" where
  "own_props src = (case src of None \<Rightarrow> fmempty | Some props \<Rightarrow> props)"

text \<open>Whether a call ended at the \<^verbatim>\<open>throw\<close> that follows the loop (line 124).\<close>

fun after_loop :: "outcome \<Rightarrow> bool" where
  "after_loop (ThrownAfterLoop v) = True"
| "after_loop _ = False"

text \<open>
  The error that the \<^verbatim>\<open>catch\<close> block appends to \<^verbatim>\<open>state.errors\<close> for an invocation
  that rejected (\<open>JUndefined\<close> where it appends nothing).
\<close>

definition failure_of :: "jsval + jsval \<Rightarrow> jsval" where
  "failure_of r =
     (case r of
        Inl e \<Rightarrow> (case wrap_thrown e of None \<Rightarrow> JUndefined | Some wr \<Rightarrow> wr)
      | Inr v \<Rightarrow> JUndefined)"

text \<open>
  Operations and a random source for examples, in the manner of the mocks of the test suite:
  an operation that always rejects with the same value, one that rejects \<open>k\<close> times and
  then resolves, and \<^verbatim>\<open>Math.random\<close> fixed at 0. \<open>scenario_config\<close> is the policy of the
  first scenario of the specification.
\<close>

definition always_rejects :: "jsval \<Rightarrow> nat \<Rightarrow> jsval + jsval" where
  "always_rejects e i = Inl e"

definition rejects_then_resolves :: "nat \<Rightarrow> jsval \<Rightarrow> jsval \<Rightarrow> nat \<Rightarrow> jsval + jsval" where
  "rejects_then_resolves k e v i = (if i < k then Inl e else Inr v)"

definition random_zero :: "nat \<Rightarrow> real" where
  "random_zero i = 0"

definition scenario_config :: RetryConfig where
  "scenario_config =
     \<lparr>maxAttempts = 5, initialDelay = Fin 100, maxDelay = Fin 1000,
      backoffMultiplier = Fin 2, jitter = False\<rparr>"

section \<open>Numbers: the exponent and the error of rounding\<close>

lemma halvings_bounds:
  "1 \<le> x \<Longrightarrow> 0 \<le> halvings n x \<and> halvings n x \<le> int n \<and> 2 powi (halvings n x) \<le> x"
proof (induction n arbitrary: x)
  case 0
  then show ?case by simp
next
  case (Suc n)
  show ?case
  proof (cases "x < 2")
    case True
    with Suc.prems show ?thesis by simp
  next
    case False
    then have "1 \<le> x / 2" by simp
    from Suc.IH [OF this] have h: "0 \<le> halvings n (x / 2)" "halvings n (x / 2) \<le> int n"
      "2 powi (halvings n (x / 2)) \<le> x / 2" by simp_all
    have "(2::real) powi (halvings n (x / 2) + 1) = 2 powi (halvings n (x / 2)) * 2"
      by (simp add: power_int_add)
    with h(3) have "(2::real) powi (halvings n (x / 2) + 1) \<le> x" by simp
    with h False show ?thesis by simp
  qed
qed

lemma halvings_upper:
  "1 \<le> x \<Longrightarrow> x < 2 powi (halvings n x + 1) \<or> halvings n x = int n"
proof (induction n arbitrary: x)
  case 0
  then show ?case by simp
next
  case (Suc n)
  show ?case
  proof (cases "x < 2")
    case True
    then show ?thesis by simp
  next
    case False
    then have "1 \<le> x / 2" by simp
    from Suc.IH [OF this] have
      "x / 2 < 2 powi (halvings n (x / 2) + 1) \<or> halvings n (x / 2) = int n" .
    moreover have "(2::real) powi (halvings n (x / 2) + 1 + 1) = 2 powi (halvings n (x / 2) + 1) * 2"
      by (simp add: power_int_add)
    ultimately show ?thesis using False by auto
  qed
qed

lemma doublings_bounds:
  "0 < x \<Longrightarrow> - int n \<le> doublings n x \<and> doublings n x \<le> 0
     \<and> (2 powi (doublings n x) \<le> x \<or> doublings n x = - int n)"
proof (induction n arbitrary: x)
  case 0
  then show ?case by simp
next
  case (Suc n)
  show ?case
  proof (cases "1 \<le> x")
    case True
    then show ?thesis by simp
  next
    case False
    from Suc.prems have "0 < 2 * x" by simp
    from Suc.IH [OF this] have h: "- int n \<le> doublings n (2 * x)" "doublings n (2 * x) \<le> 0"
      "2 powi (doublings n (2 * x)) \<le> 2 * x \<or> doublings n (2 * x) = - int n" by simp_all
    have "(2::real) powi (doublings n (2 * x) - 1) = 2 powi (doublings n (2 * x)) / 2"
      by (simp add: power_int_diff)
    with h(3) have "2 powi (doublings n (2 * x) - 1) \<le> x \<or> doublings n (2 * x) - 1 = - int (Suc n)"
      by auto
    with h False show ?thesis by simp
  qed
qed

lemma doublings_upper:
  "0 < x \<Longrightarrow> x < 1 \<Longrightarrow> x < 2 powi (doublings n x + 1)"
proof (induction n arbitrary: x)
  case 0
  then show ?case by simp
next
  case (Suc n)
  show ?case
  proof (cases "1 \<le> 2 * x")
    case True
    then have "doublings n (2 * x) = 0" by (cases n) simp_all
    with Suc.prems show ?thesis by simp
  next
    case False
    from Suc.prems False have "0 < 2 * x" "2 * x < 1" by simp_all
    from Suc.IH [OF this] have "2 * x < 2 powi (doublings n (2 * x) + 1)" .
    moreover have "(2::real) powi (doublings n (2 * x) + 1) = 2 powi (doublings n (2 * x) - 1 + 1) * 2"
      by (simp add: power_int_add)
    ultimately show ?thesis using Suc.prems by auto
  qed
qed

lemma doublings_zero: "doublings n 0 = - int n"
  by (induction n) simp_all

lemma expo_range: "- 1022 \<le> expo x \<and> expo x \<le> 1024"
proof (cases "1 \<le> \<bar>x\<bar>")
  case True
  from halvings_bounds [OF this, of 1024] True show ?thesis by (simp add: expo_def)
next
  case False
  show ?thesis
  proof (cases "x = 0")
    case True
    have "doublings 1022 0 = - 1022 \<or> True" by simp
    have "\<And>n. doublings n 0 = - int n" 
    proof -
      fix n show "doublings n 0 = - int n" by (induction n) simp_all
    qed
    from this [of 1022] True show ?thesis by (simp add: expo_def)
  next
    case nz: False
    then have "0 < \<bar>x\<bar>" by simp
    from doublings_bounds [OF this, of 1022] False show ?thesis by (simp add: expo_def)
  qed
qed

lemma expo_lower: "x \<noteq> 0 \<Longrightarrow> 2 powi (expo x) \<le> \<bar>x\<bar> \<or> expo x = - 1022"
proof (cases "1 \<le> \<bar>x\<bar>")
  case True
  from halvings_bounds [OF this, of 1024] True show ?thesis by (simp add: expo_def)
next
  case False
  assume "x \<noteq> 0"
  then have "0 < \<bar>x\<bar>" by simp
  from doublings_bounds [OF this, of 1022] False show ?thesis by (simp add: expo_def)
qed

lemma expo_upper: "x \<noteq> 0 \<Longrightarrow> \<bar>x\<bar> < 2 powi (expo x + 1) \<or> expo x = 1024"
proof (cases "1 \<le> \<bar>x\<bar>")
  case True
  from halvings_upper [OF this, of 1024] True show ?thesis by (simp add: expo_def)
next
  case False
  assume "x \<noteq> 0"
  then have "0 < \<bar>x\<bar>" by simp
  from doublings_upper [OF this, of 1022] False show ?thesis by (simp add: expo_def)
qed

lemma expo_no_overflow: "\<bar>x\<bar> < 2 ^ 1024 \<Longrightarrow> expo x < 1024"
proof (rule ccontr)
  assume lt: "\<bar>x\<bar> < 2 ^ 1024" and "\<not> expo x < 1024"
  with expo_range [of x] have e: "expo x = 1024" by simp
  then have "x \<noteq> 0" by (auto simp: expo_def doublings_zero)
  from expo_lower [OF this] e have "2 powi 1024 \<le> \<bar>x\<bar>" by simp
  with lt show False by simp
qed


lemma round_half_even_of_int [simp]: "round_half_even (real_of_int n) = n"
  by (simp add: round_half_even_def)


lemma fl_exact:
  assumes "\<bar>m\<bar> < 2 ^ 53" and "- 1074 \<le> e" and "e \<le> 971"
  shows "fl (real_of_int m * 2 powi e) = Fin (real_of_int m * 2 powi e)"
proof (cases "m = 0")
  case True
  then show ?thesis by (simp add: fl_def)
next
  case False
  define x where "x = real_of_int m * 2 powi e"
  have nz: "x \<noteq> 0" using False by (simp add: x_def)
  have absx: "\<bar>x\<bar> = real_of_int \<bar>m\<bar> * 2 powi e" by (simp add: x_def abs_mult)
  have ge: "expo x - 52 \<le> e"
  proof -
    from expo_lower [OF nz] consider "2 powi (expo x) \<le> \<bar>x\<bar>" | "expo x = - 1022" by blast
    then show ?thesis
    proof cases
      case 1
      have "real_of_int \<bar>m\<bar> < 2 ^ 53" using assms(1) by (metis of_int_less_numeral_power_cancel_iff)
      then have "\<bar>x\<bar> < 2 ^ 53 * 2 powi e" unfolding absx by (simp add: mult_strict_right_mono)
      also have "\<dots> = 2 powi (53 + e)" by (simp add: power_int_add)
      finally have "(2::real) powi (expo x) < 2 powi (53 + e)" using 1 by simp
      have "expo x < 53 + e"
      proof (rule ccontr)
        assume "\<not> expo x < 53 + e"
        then have "(2::real) powi (53 + e) \<le> 2 powi (expo x)"
          by (intro power_int_increasing) simp_all
        with \<open>(2::real) powi (expo x) < 2 powi (53 + e)\<close> show False by simp
      qed
      then show ?thesis by simp
    next
      case 2
      with assms(2) show ?thesis by simp
    qed
  qed
  define E where "E = expo x"
  define k where "k = nat (e - (E - 52))"
  have "e = (E - 52) + int k" using ge by (simp add: k_def E_def)
  then have "(2::real) powi e = 2 powi ((E - 52) + int k)" by simp
  also have "\<dots> = 2 powi (E - 52) * 2 ^ k" by (simp add: power_int_add)
  finally have pw: "(2::real) powi e = 2 powi (E - 52) * 2 ^ k" .
  have "x / 2 powi (E - 52) = real_of_int (m * 2 ^ k)" by (simp add: x_def pw)
  then have q: "round_half_even (x / 2 powi (E - 52)) = m * 2 ^ k"
    by (simp only: round_half_even_of_int)
  have y: "real_of_int m * 2 ^ k * 2 powi (E - 52) = x" by (simp add: x_def pw)
  have "\<bar>x\<bar> < 2 ^ 53 * 2 powi e"
    unfolding absx using assms(1) by (simp add: mult_strict_right_mono)
  also have "\<dots> \<le> 2 ^ 53 * 2 powi 971"
    using assms(3) by (simp add: power_int_increasing del: power_int_numeral)
  also have "\<dots> = 2 ^ 1024" by simp
  finally have "expo x < 1024" by (rule expo_no_overflow)
  then have "fl x = Fin x"
    using nz by (simp add: fl_def Let_def E_def [symmetric] q y)
  then show ?thesis by (simp add: x_def)
qed


lemma fl_of_int:
  assumes "\<bar>p\<bar> \<le> 2 ^ 53"
  shows "fl (real_of_int p) = Fin (real_of_int p)"
proof (cases "\<bar>p\<bar> < 2 ^ 53")
  case True
  from fl_exact [OF True, of 0] show ?thesis by simp
next
  case False
  with assms have "\<bar>p\<bar> = 2 ^ 53" by simp
  then consider "p = 2 ^ 52 * 2" | "p = - (2 ^ 52) * 2" by (auto simp: abs_if split: if_splits)
  then show ?thesis
  proof cases
    case 1
    have "fl (real_of_int (2 ^ 52) * 2 powi 1) = Fin (real_of_int (2 ^ 52) * 2 powi 1)"
      by (rule fl_exact) simp_all
    with 1 show ?thesis by simp
  next
    case 2
    have "fl (real_of_int (- (2 ^ 52)) * 2 powi 1) = Fin (real_of_int (- (2 ^ 52)) * 2 powi 1)"
      by (rule fl_exact) simp_all
    with 2 show ?thesis by simp
  qed
qed


lemma num_sub_Fin [simp]: "num_sub (Fin x) (Fin y) = fl (x - y)"
  by (simp add: num_sub_def)



section \<open>Strings: what \<^verbatim>\<open>includes\<close> decides\<close>

lemma js_includes_iff: "js_includes s p \<longleftrightarrow> (\<exists>xs ys. s = xs @ p @ ys)"
proof (induction s)
  case Nil
  then show ?case by auto
next
  case (Cons c cs)
  show ?case
  proof
    assume "js_includes (c # cs) p"
    then consider "prefix p (c # cs)" | "js_includes cs p" by auto
    then show "\<exists>xs ys. c # cs = xs @ p @ ys"
    proof cases
      case 1
      then obtain ys where "c # cs = p @ ys" by (auto simp: prefix_def)
      then have "c # cs = [] @ p @ ys" by simp
      then show ?thesis by blast
    next
      case 2
      with Cons.IH obtain xs ys where "cs = xs @ p @ ys" by blast
      then have "c # cs = (c # xs) @ p @ ys" by simp
      then show ?thesis by blast
    qed
  next
    assume "\<exists>xs ys. c # cs = xs @ p @ ys"
    then obtain xs ys where eq: "c # cs = xs @ p @ ys" by blast
    show "js_includes (c # cs) p"
    proof (cases xs)
      case Nil
      with eq have "prefix p (c # cs)" by (simp add: prefix_def)
      then show ?thesis by simp
    next
      case (Cons x xs')
      with eq have "cs = xs' @ p @ ys" by simp
      with Cons.IH have "js_includes cs p" by blast
      then show ?thesis by simp
    qed
  qed
qed

lemma includes_lower_iff:
  "js_includes (toLowerCase s) (toLowerCase p) \<longleftrightarrow> contains_ignoring_case s p"
proof
  assume "js_includes (toLowerCase s) (toLowerCase p)"
  then obtain xs ys where "map lower_char s = xs @ map lower_char p @ ys"
    by (auto simp: js_includes_iff toLowerCase_def)
  then obtain a r where a: "s = a @ r" "map lower_char r = map lower_char p @ ys"
    by (metis map_eq_append_conv)
  then obtain b c where "r = b @ c" "map lower_char b = map lower_char p"
    by (metis map_eq_append_conv)
  with a have "s = a @ b @ c" "map lower_char b = map lower_char p" by simp_all
  then show "contains_ignoring_case s p"
    unfolding contains_ignoring_case_def toLowerCase_def by blast
next
  assume "contains_ignoring_case s p"
  then obtain xs t ys where "s = xs @ t @ ys" "toLowerCase t = toLowerCase p"
    unfolding contains_ignoring_case_def by blast
  then have "toLowerCase s = toLowerCase xs @ toLowerCase p @ toLowerCase ys"
    by (simp add: toLowerCase_def)
  then show "js_includes (toLowerCase s) (toLowerCase p)"
    unfolding js_includes_iff by blast
qed

section \<open>One turn of the loop\<close>

lemma final_error_cong:
  "attempt st = attempt st' \<Longrightarrow> errors st = errors st' \<Longrightarrow>
     final_error st ctx e wr = final_error st' ctx e wr"
  by (simp add: final_error_def split: jsval.splits)

lemma catch_block_Inr:
  assumes "catch_block pow cfg rnd ctx state w e = Inr (state', w')"
  shows "\<exists>wr. wrap_thrown e = Some wr \<and> isRetryableError wr \<and> attempt state < maxAttempts cfg
           \<and> attempt state' = attempt state \<and> errors state' = errors state @ [wr]
           \<and> calls w' = calls w
           \<and> sleeps w' = sleeps w @ [calculateDelay pow cfg (attempt state) (rnd (draws w))]
           \<and> draws w' = (if jitter cfg then Suc (draws w) else draws w)"
  using assms
  by (auto simp: catch_block_def Let_def logger_def split: option.splits if_splits)

lemma catch_block_Inl:
  assumes "catch_block pow cfg rnd ctx state w e = Inl (out, w')"
  shows "calls w' = calls w \<and> sleeps w' = sleeps w \<and> draws w' = draws w
         \<and> (case wrap_thrown e of
               None \<Rightarrow> out = Thrown to_primitive_TypeError
             | Some wr \<Rightarrow>
                 (maxAttempts cfg \<le> attempt state \<or> \<not> isRetryableError wr)
                 \<and> out = Thrown (final_error (state\<lparr>errors := errors state @ [wr]\<rparr>) ctx e wr))"
  using assms
  by (auto simp: catch_block_def Let_def logger_def split: option.splits if_splits)

lemma loop_body_Inr:
  assumes "loop_body pow cfg op rnd ctx state w = Inr (state', w')"
  shows "\<exists>e wr. op (calls w) = Inl e \<and> wrap_thrown e = Some wr \<and> isRetryableError wr
           \<and> attempt state + 1 < maxAttempts cfg
           \<and> attempt state' = attempt state + 1 \<and> errors state' = errors state @ [wr]
           \<and> calls w' = Suc (calls w)
           \<and> sleeps w' = sleeps w @ [calculateDelay pow cfg (attempt state + 1) (rnd (draws w))]
           \<and> draws w' = (if jitter cfg then Suc (draws w) else draws w)"
proof (cases "op (calls w)")
  case (Inl e)
  with assms have
    "catch_block pow cfg rnd ctx (state\<lparr>attempt := attempt state + 1\<rparr>)
       (logger Debug ''Executing operation''
          (js_spread (fmap_of_list [(''attempt'', JNum (attempt state + 1)),
                                    (''maxAttempts'', JNum (maxAttempts cfg))]) ctx)
          None w\<lparr>calls := Suc (calls w)\<rparr>) e = Inr (state', w')"
    by (simp add: loop_body_def Let_def logger_def)
  from catch_block_Inr [OF this] Inl show ?thesis
    by (auto simp: logger_def)
next
  case (Inr v)
  with assms show ?thesis
    by (simp add: loop_body_def Let_def logger_def)
qed

lemma loop_body_Inl:
  assumes "loop_body pow cfg op rnd ctx state w = Inl (out, w')"
  shows "calls w' = Suc (calls w) \<and> sleeps w' = sleeps w \<and> draws w' = draws w
         \<and> (case op (calls w) of
               Inr v \<Rightarrow> out = Returned v
             | Inl e \<Rightarrow>
                 (case wrap_thrown e of
                    None \<Rightarrow> out = Thrown to_primitive_TypeError
                  | Some wr \<Rightarrow>
                      (maxAttempts cfg \<le> attempt state + 1 \<or> \<not> isRetryableError wr)
                      \<and> out = Thrown (final_error
                                        \<lparr>attempt = attempt state + 1, totalDelay = totalDelay state,
                                         errors = errors state @ [wr]\<rparr> ctx e wr)))"
proof (cases "op (calls w)")
  case (Inl e)
  with assms have
    "catch_block pow cfg rnd ctx (state\<lparr>attempt := attempt state + 1\<rparr>)
       (logger Debug ''Executing operation''
          (js_spread (fmap_of_list [(''attempt'', JNum (attempt state + 1)),
                                    (''maxAttempts'', JNum (maxAttempts cfg))]) ctx)
          None w\<lparr>calls := Suc (calls w)\<rparr>) e = Inl (out, w')"
    by (simp add: loop_body_def Let_def logger_def)
  from catch_block_Inl [OF this] Inl show ?thesis
    by (auto simp: logger_def split: option.splits
        intro!: final_error_cong)
next
  case (Inr v)
  with assms show ?thesis
    by (auto simp: loop_body_def Let_def logger_def split: if_splits)
qed

section \<open>Runs of the loop\<close>

text \<open>
  A run that enters the loop with \<open>attempt\<close> equal to the number of invocations made so
  far makes at least one more invocation and at most \<^verbatim>\<open>maxAttempts\<close> in all; every invocation
  but the last one failed with an error that \<^verbatim>\<open>isRetryableError\<close> accepts, and the last
  invocation decides the outcome.
\<close>

lemma execute_loop_run:
  assumes "execute_loop pow cfg op rnd ctx state w = (out, w')"
    and "attempt state = int (calls w)"
    and "attempt state < maxAttempts cfg"
  shows "calls w < calls w' \<and> int (calls w') \<le> maxAttempts cfg
    \<and> (\<forall>i. calls w \<le> i \<and> Suc i < calls w' \<longrightarrow>
          (\<exists>e wr. op i = Inl e \<and> wrap_thrown e = Some wr \<and> isRetryableError wr))
    \<and> (case op (calls w' - 1) of
          Inr v \<Rightarrow> out = Returned v
        | Inl e \<Rightarrow>
            (case wrap_thrown e of
               None \<Rightarrow> out = Thrown to_primitive_TypeError
             | Some wr \<Rightarrow>
                 (maxAttempts cfg \<le> int (calls w') \<or> \<not> isRetryableError wr)
                 \<and> out = Thrown (final_error
                                   \<lparr>attempt = int (calls w'), totalDelay = Fin 0,
                                    errors = errors state @ map (\<lambda>i. failure_of (op i)) [calls w..<calls w']\<rparr>
                                   ctx e wr)))"
  using assms
proof (induction pow cfg op rnd ctx state w rule: execute_loop.induct)
  case (1 pow cfg op rnd ctx state w)
  show ?case
  proof (cases "loop_body pow cfg op rnd ctx state w")
    case (Inl res)
    with "1.prems" have body: "loop_body pow cfg op rnd ctx state w = Inl (out, w')"
      by (simp add: execute_loop.simps)
    from loop_body_Inl [OF body] have
      c: "calls w' = Suc (calls w)" and
      last: "(case op (calls w) of
               Inr v \<Rightarrow> out = Returned v
             | Inl e \<Rightarrow>
                 (case wrap_thrown e of
                    None \<Rightarrow> out = Thrown to_primitive_TypeError
                  | Some wr \<Rightarrow>
                      (maxAttempts cfg \<le> attempt state + 1 \<or> \<not> isRetryableError wr)
                      \<and> out = Thrown (final_error
                                        \<lparr>attempt = attempt state + 1, totalDelay = totalDelay state,
                                         errors = errors state @ [wr]\<rparr> ctx e wr)))"
      by simp_all
    from c "1.prems" have "calls w < calls w'" "int (calls w') \<le> maxAttempts cfg"
      by simp_all
    moreover from c have "\<forall>i. calls w \<le> i \<and> Suc i < calls w' \<longrightarrow>
          (\<exists>e wr. op i = Inl e \<and> wrap_thrown e = Some wr \<and> isRetryableError wr)"
      by auto
    moreover from last c "1.prems"(2) have "(case op (calls w' - 1) of
          Inr v \<Rightarrow> out = Returned v
        | Inl e \<Rightarrow>
            (case wrap_thrown e of
               None \<Rightarrow> out = Thrown to_primitive_TypeError
             | Some wr \<Rightarrow>
                 (maxAttempts cfg \<le> int (calls w') \<or> \<not> isRetryableError wr)
                 \<and> out = Thrown (final_error
                                   \<lparr>attempt = int (calls w'), totalDelay = Fin 0,
                                    errors = errors state @ map (\<lambda>i. failure_of (op i)) [calls w..<calls w']\<rparr>
                                   ctx e wr)))"
      by (auto simp: failure_of_def split: sum.splits option.splits intro!: final_error_cong)
    ultimately show ?thesis by blast
  next
    case (Inr p)
    obtain state1 w1 where p: "p = (state1, w1)" by (cases p)
    with Inr have body: "loop_body pow cfg op rnd ctx state w = Inr (state1, w1)" by simp
    from loop_body_Inr [OF body] obtain e wr where
      step: "op (calls w) = Inl e" "wrap_thrown e = Some wr" "isRetryableError wr"
        "attempt state + 1 < maxAttempts cfg" "attempt state1 = attempt state + 1"
        "errors state1 = errors state @ [wr]" "calls w1 = Suc (calls w)"
      by blast
    from body "1.prems" have run: "execute_loop pow cfg op rnd ctx state1 w1 = (out, w')"
      by (simp add: execute_loop.simps)
    from step "1.prems" have inv: "attempt state1 = int (calls w1)" "attempt state1 < maxAttempts cfg"
      by simp_all
    note IH = "1.IH" [OF "1.prems"(3) Inr p [symmetric] run inv]
    from IH have lt: "calls w1 < calls w'" and le: "int (calls w') \<le> maxAttempts cfg"
      by simp_all
    from IH have mid: "\<forall>i. calls w1 \<le> i \<and> Suc i < calls w' \<longrightarrow>
          (\<exists>e wr. op i = Inl e \<and> wrap_thrown e = Some wr \<and> isRetryableError wr)"
      by simp
    have f: "failure_of (op (calls w)) = wr"
      using step by (simp add: failure_of_def)
    have "[calls w..<calls w'] = calls w # [calls w1..<calls w']"
      using lt step(7) by (simp add: upt_conv_Cons)
    with f step(6) have errs: "errors state1 @ map (\<lambda>i. failure_of (op i)) [calls w1..<calls w']
        = errors state @ map (\<lambda>i. failure_of (op i)) [calls w..<calls w']"
      by simp
    have "calls w < calls w'" using lt step(7) by simp
    moreover have "\<forall>i. calls w \<le> i \<and> Suc i < calls w' \<longrightarrow>
          (\<exists>e wr. op i = Inl e \<and> wrap_thrown e = Some wr \<and> isRetryableError wr)"
    proof (intro allI impI)
      fix i assume i: "calls w \<le> i \<and> Suc i < calls w'"
      show "\<exists>e wr. op i = Inl e \<and> wrap_thrown e = Some wr \<and> isRetryableError wr"
      proof (cases "i = calls w")
        case True
        with step show ?thesis by blast
      next
        case False
        with i step(7) have "calls w1 \<le> i \<and> Suc i < calls w'" by simp
        with mid show ?thesis by blast
      qed
    qed
    moreover from IH errs have "(case op (calls w' - 1) of
          Inr v \<Rightarrow> out = Returned v
        | Inl e \<Rightarrow>
            (case wrap_thrown e of
               None \<Rightarrow> out = Thrown to_primitive_TypeError
             | Some wr \<Rightarrow>
                 (maxAttempts cfg \<le> int (calls w') \<or> \<not> isRetryableError wr)
                 \<and> out = Thrown (final_error
                                   \<lparr>attempt = int (calls w'), totalDelay = Fin 0,
                                    errors = errors state @ map (\<lambda>i. failure_of (op i)) [calls w..<calls w']\<rparr>
                                   ctx e wr)))"
      by (simp split: sum.splits option.splits)
    ultimately show ?thesis using le by blast
  qed
qed

lemma execute_loop_sleeps:
  assumes "execute_loop pow cfg op rnd ctx state w = (out, w')"
    and "attempt state = int (calls w)"
    and "length (sleeps w) = calls w"
    and "draws w = (if jitter cfg then calls w else 0)"
    and "\<forall>k<length (sleeps w).
           sleeps w ! k = calculateDelay pow cfg (int k + 1) (rnd (if jitter cfg then k else 0))"
  shows "(\<forall>k<length (sleeps w').
           sleeps w' ! k = calculateDelay pow cfg (int k + 1) (rnd (if jitter cfg then k else 0)))
       \<and> (attempt state < maxAttempts cfg \<longrightarrow> Suc (length (sleeps w')) = calls w')"
  using assms
proof (induction pow cfg op rnd ctx state w rule: execute_loop.induct)
  case (1 pow cfg op rnd ctx state w)
  show ?case
  proof (cases "attempt state < maxAttempts cfg")
    case False
    with "1.prems" show ?thesis by (simp add: execute_loop.simps)
  next
    case True
    show ?thesis
    proof (cases "loop_body pow cfg op rnd ctx state w")
      case (Inl res)
      with "1.prems" True have body: "loop_body pow cfg op rnd ctx state w = Inl (out, w')"
        by (simp add: execute_loop.simps)
      from loop_body_Inl [OF body] have "calls w' = Suc (calls w)" "sleeps w' = sleeps w"
        by simp_all
      with "1.prems" show ?thesis by simp
    next
      case (Inr p)
      obtain state1 w1 where p: "p = (state1, w1)" by (cases p)
      with Inr have body: "loop_body pow cfg op rnd ctx state w = Inr (state1, w1)" by simp
      from loop_body_Inr [OF body] have
        step: "attempt state + 1 < maxAttempts cfg" "attempt state1 = attempt state + 1"
          "calls w1 = Suc (calls w)"
          "sleeps w1 = sleeps w @ [calculateDelay pow cfg (attempt state + 1) (rnd (draws w))]"
          "draws w1 = (if jitter cfg then Suc (draws w) else draws w)"
        by blast+
      from body "1.prems" True have run: "execute_loop pow cfg op rnd ctx state1 w1 = (out, w')"
        by (simp add: execute_loop.simps)
      have i1: "attempt state1 = int (calls w1)" using step "1.prems" by simp
      have i2: "length (sleeps w1) = calls w1" using step "1.prems" by simp
      have i3: "draws w1 = (if jitter cfg then calls w1 else 0)" using step "1.prems" by simp
      have i4: "\<forall>k<length (sleeps w1).
           sleeps w1 ! k = calculateDelay pow cfg (int k + 1) (rnd (if jitter cfg then k else 0))"
      proof (intro allI impI)
        fix k assume "k < length (sleeps w1)"
        then consider "k < length (sleeps w)" | "k = length (sleeps w)"
          using step(4) by (auto simp: less_Suc_eq)
        then show "sleeps w1 ! k = calculateDelay pow cfg (int k + 1) (rnd (if jitter cfg then k else 0))"
        proof cases
          case 1
          then show ?thesis using step(4) "1.prems"(5) by (simp add: nth_append)
        next
          case 2
          then show ?thesis using step(4) "1.prems"(2,3,4) by (simp add: nth_append)
        qed
      qed
      note IH = "1.IH" [OF True Inr p [symmetric] run i1 i2 i3 i4]
      with step i1 show ?thesis by simp
    qed
  qed
qed

lemma js_spread_own_props: "js_spread base src = base ++\<^sub>f own_props src"
  by (cases src) (simp_all add: own_props_def)

lemma wrap_thrown_Error: "is_Error e \<Longrightarrow> wrap_thrown e = Some e"
  by (simp add: wrap_thrown_def)

lemma execute_no_attempts:
  assumes "maxAttempts cfg \<le> 0"
  shows "execute pow cfg op rnd ctx =
           (ThrownAfterLoop JUndefined, \<lparr>calls = 0, draws = 0, sleeps = [], logs = []\<rparr>)"
  using assms by (simp add: execute_def execute_loop.simps)

lemma execute_run:
  assumes "1 \<le> maxAttempts cfg"
  shows "1 \<le> calls (snd (execute pow cfg op rnd ctx))
    \<and> int (calls (snd (execute pow cfg op rnd ctx))) \<le> maxAttempts cfg
    \<and> (\<forall>i. Suc i < calls (snd (execute pow cfg op rnd ctx)) \<longrightarrow>
          (\<exists>e wr. op i = Inl e \<and> wrap_thrown e = Some wr \<and> isRetryableError wr))
    \<and> (case op (calls (snd (execute pow cfg op rnd ctx)) - 1) of
          Inr v \<Rightarrow> fst (execute pow cfg op rnd ctx) = Returned v
        | Inl e \<Rightarrow>
            (case wrap_thrown e of
               None \<Rightarrow> fst (execute pow cfg op rnd ctx) = Thrown to_primitive_TypeError
             | Some wr \<Rightarrow>
                 (maxAttempts cfg \<le> int (calls (snd (execute pow cfg op rnd ctx)))
                    \<or> \<not> isRetryableError wr)
                 \<and> fst (execute pow cfg op rnd ctx) =
                     Thrown (final_error
                               \<lparr>attempt = int (calls (snd (execute pow cfg op rnd ctx))), totalDelay = Fin 0,
                                errors = map (\<lambda>i. failure_of (op i))
                                           [0..<calls (snd (execute pow cfg op rnd ctx))]\<rparr>
                               ctx e wr)))"
proof -
  obtain out w' where r: "execute pow cfg op rnd ctx = (out, w')" by (cases "execute pow cfg op rnd ctx")
  then have run: "execute_loop pow cfg op rnd ctx \<lparr>attempt = 0, totalDelay = Fin 0, errors = []\<rparr>
       \<lparr>calls = 0, draws = 0, sleeps = [], logs = []\<rparr> = (out, w')"
    by (simp add: execute_def)
  from execute_loop_run [OF run] assms show ?thesis
    unfolding r by (simp add: Suc_le_eq split: sum.splits option.splits)
qed

lemma execute_calls:
  assumes n: "1 \<le> n" "int n \<le> maxAttempts cfg"
    and fails: "\<forall>i. Suc i < n \<longrightarrow>
                  (\<exists>e wr. op i = Inl e \<and> wrap_thrown e = Some wr \<and> isRetryableError wr)"
    and stops: "\<forall>e wr. op (n - 1) = Inl e \<and> wrap_thrown e = Some wr \<and> isRetryableError wr
                  \<longrightarrow> maxAttempts cfg \<le> int n"
  shows "calls (snd (execute pow cfg op rnd ctx)) = n"
proof -
  let ?m = "calls (snd (execute pow cfg op rnd ctx))"
  from n have "1 \<le> maxAttempts cfg" by simp
  note run = execute_run [OF this, of pow op rnd ctx]
  from run have m: "1 \<le> ?m" "int ?m \<le> maxAttempts cfg" by simp_all
  from run have mfails: "\<forall>i. Suc i < ?m \<longrightarrow>
      (\<exists>e wr. op i = Inl e \<and> wrap_thrown e = Some wr \<and> isRetryableError wr)" by simp
  from run have mstops: "\<forall>e wr. op (?m - 1) = Inl e \<and> wrap_thrown e = Some wr \<and> isRetryableError wr
                  \<longrightarrow> maxAttempts cfg \<le> int ?m"
    by (auto split: sum.splits option.splits)
  show ?thesis
  proof (rule ccontr)
    assume "?m \<noteq> n"
    then consider "?m < n" | "n < ?m" by linarith
    then show False
    proof cases
      case 1
      with m have "Suc (?m - 1) < n" by simp
      with fails obtain e wr where "op (?m - 1) = Inl e" "wrap_thrown e = Some wr" "isRetryableError wr"
        by blast
      with mstops have "maxAttempts cfg \<le> int ?m" by blast
      with 1 n show False by simp
    next
      case 2
      with n have "Suc (n - 1) < ?m" by simp
      with mfails obtain e wr where "op (n - 1) = Inl e" "wrap_thrown e = Some wr" "isRetryableError wr"
        by blast
      with stops have "maxAttempts cfg \<le> int n" by blast
      with 2 m show False by simp
    qed
  qed
qed

lemma execute_sleeps:
  "(\<forall>k<length (sleeps (snd (execute pow cfg op rnd ctx))).
       sleeps (snd (execute pow cfg op rnd ctx)) ! k =
         calculateDelay pow cfg (int k + 1) (rnd (if jitter cfg then k else 0)))
   \<and> (1 \<le> maxAttempts cfg \<longrightarrow>
        Suc (length (sleeps (snd (execute pow cfg op rnd ctx)))) = calls (snd (execute pow cfg op rnd ctx)))"
proof -
  obtain out w' where r: "execute pow cfg op rnd ctx = (out, w')" by (cases "execute pow cfg op rnd ctx")
  then have run: "execute_loop pow cfg op rnd ctx \<lparr>attempt = 0, totalDelay = Fin 0, errors = []\<rparr>
       \<lparr>calls = 0, draws = 0, sleeps = [], logs = []\<rparr> = (out, w')"
    by (simp add: execute_def)
  from execute_loop_sleeps [OF run] show ?thesis
    unfolding r by simp
qed

lemma calculateDelay_no_jitter:
  "\<not> jitter cfg \<Longrightarrow>
     calculateDelay pow cfg k r =
       Math_max (Fin 0)
         (Math_round
            (Math_min (num_mul (initialDelay cfg) (pow (backoffMultiplier cfg) (k - 1)))
               (maxDelay cfg)))"
  by (simp add: calculateDelay_def Let_def)

section \<open>Auxiliary facts\<close>

lemma includes_lowered_pattern:
  "toLowerCase p = p \<Longrightarrow> js_includes (toLowerCase s) p \<longleftrightarrow> contains_ignoring_case s p"
  using includes_lower_iff [of s p] by simp

lemma list_ex_transient:
  "list_ex (\<lambda>msg. js_includes (toLowerCase message) (toLowerCase msg)) transientMessages
     \<longleftrightarrow> (\<exists>p\<in>set transientMessages. contains_ignoring_case message p)"
  by (simp add: list_ex_iff includes_lower_iff)

lemma failure_of_Inl: "wrap_thrown e = Some wr \<Longrightarrow> failure_of (Inl e) = wr"
  by (simp add: failure_of_def)

lemma execute_Thrown_attempts:
  assumes "fst (execute pow cfg op rnd ctx) = Thrown v"
  shows "1 \<le> maxAttempts cfg"
proof (rule ccontr)
  assume "\<not> 1 \<le> maxAttempts cfg"
  then have "maxAttempts cfg \<le> 0" by simp
  from execute_no_attempts [OF this, of pow op rnd ctx] assms show False by simp
qed

lemma final_error_EmailError:
  "final_error st ctx (JEmailError c msg cause ectx) wr =
     JEmailError c
       (''Operation failed after '' @ js_number_string (attempt st) @ '' attempts: '' @ msg)
       (Some (JEmailError c msg cause ectx))
       (Some (fmap_of_list
                [(''attempts'', JNum (attempt st)),
                 (''allErrors'', JArray (map js_message (errors st)))]
              ++\<^sub>f own_props ctx ++\<^sub>f own_props ectx))"
  by (simp add: final_error_def js_spread_own_props)

lemma final_error_other: "\<not> is_EmailError e \<Longrightarrow> final_error st ctx e wr = wr"
  by (cases e) (simp_all add: final_error_def)

lemma wrapError_generic_Error:
  "wrapError (JError name msg) context =
     Inr (if contains_ignoring_case msg ''auth'' then
            JEmailError SMTPAuthenticationError (''Authentication failed: '' @ msg)
              (Some (JError name msg)) context
          else if contains_ignoring_case msg ''connect'' then
            JEmailError SMTPConnectionError (''Connection failed: '' @ msg)
              (Some (JError name msg)) context
          else
            JEmailError EmailSendError (''Email operation failed: '' @ msg)
              (Some (JError name msg)) context)
   \<and> \<not> retryable SMTPAuthenticationError
   \<and> retryable SMTPConnectionError
   \<and> retryable EmailSendError"
proof -
  have a: "toLowerCase ''auth'' = ''auth''" by code_simp
  have c: "toLowerCase ''connect'' = ''connect''" by code_simp
  show ?thesis
    by (simp add: wrapError_def Let_def includes_lowered_pattern [OF a]
        includes_lowered_pattern [OF c])
qed

lemma categorizeSmtpError_generic_Error:
  "categorizeSmtpError (JError name msg) context =
     Inr (if contains_ignoring_case msg ''auth'' \<or> contains_ignoring_case msg ''login''
             \<or> contains_ignoring_case msg ''password'' then
            JEmailError SMTPAuthenticationError (''SMTP authentication failed: '' @ msg)
              (Some (JError name msg)) context
          else if contains_ignoring_case msg ''connect'' \<or> contains_ignoring_case msg ''timeout''
             \<or> contains_ignoring_case msg ''enotfound'' then
            JEmailError SMTPConnectionError (''SMTP connection failed: '' @ msg)
              (Some (JError name msg)) context
          else
            JEmailError EmailSendError (''SMTP send failed: '' @ msg)
              (Some (JError name msg)) context)"
proof -
  have a: "toLowerCase ''auth'' = ''auth''" by code_simp
  have l: "toLowerCase ''login'' = ''login''" by code_simp
  have p: "toLowerCase ''password'' = ''password''" by code_simp
  have c: "toLowerCase ''connect'' = ''connect''" by code_simp
  have t: "toLowerCase ''timeout'' = ''timeout''" by code_simp
  have e: "toLowerCase ''enotfound'' = ''enotfound''" by code_simp
  show ?thesis
    by (simp add: categorizeSmtpError_def error_message_def Let_def
        includes_lowered_pattern [OF a] includes_lowered_pattern [OF l]
        includes_lowered_pattern [OF p] includes_lowered_pattern [OF c]
        includes_lowered_pattern [OF t] includes_lowered_pattern [OF e])
qed

lemma wrapError_other:
  "\<not> is_Error v \<Longrightarrow>
     wrapError v context =
       (case js_String v of
          None \<Rightarrow> Inl to_primitive_TypeError
        | Some s \<Rightarrow>
            Inr (JEmailError EmailSendError (''Unknown error occurred: '' @ s) None context))"
  by (cases v) (simp_all add: wrapError_def del: js_String.simps)

section \<open>Properties of \<^verbatim>\<open>execute\<close>\<close>

text \<open>
  C10. For every policy with \<^verbatim>\<open>maxAttempts\<close> at least 1 and every operation, \<^verbatim>\<open>execute\<close>
  ends by the \<^verbatim>\<open>return\<close> or by a \<^verbatim>\<open>throw\<close> inside the loop body: the \<^verbatim>\<open>throw\<close> that
  follows the loop is not reached. (It is reached when \<^verbatim>\<open>maxAttempts\<close> is 0 or less, and
  then throws \<^verbatim>\<open>undefined\<close>: lemma \<open>execute_no_attempts\<close>.)
\<close>

theorem execute_exits_inside_loop:
  assumes "1 \<le> maxAttempts cfg"
  shows "\<not> after_loop (fst (execute pow cfg operation random context))"
proof -
  note run = execute_run [OF assms, of pow operation random "context"]
  then show ?thesis
    by (auto split: sum.splits option.splits)
qed

theorem execute_exits_inside_loop_witness:
  "1 \<le> maxAttempts DEFAULT_RETRY_CONFIG
   \<and> \<not> after_loop (fst (execute pow_rounded DEFAULT_RETRY_CONFIG (always_rejects JNull) random_zero None))"
proof -
  have h: "1 \<le> maxAttempts DEFAULT_RETRY_CONFIG" by (simp add: DEFAULT_RETRY_CONFIG_def)
  from execute_exits_inside_loop [OF h] h show ?thesis by blast
qed

text \<open>
  C9. For every policy and every \<open>k\<close> from 1 to \<^verbatim>\<open>maxAttempts\<close>: if the operation fails with
  a retryable error on each of its first \<open>k - 1\<close> invocations and succeeds on the \<open>k\<close>-th,
  then \<^verbatim>\<open>execute\<close> invokes it exactly \<open>k\<close> times and returns the value of the \<open>k\<close>-th
  invocation. With \<open>k = 1\<close>: an operation that succeeds at once is invoked once.
\<close>

theorem execute_recovers:
  assumes "1 \<le> k" and "int k \<le> maxAttempts cfg"
    and "\<forall>i<k - 1. \<exists>e. operation i = Inl e \<and> is_Error e \<and> isRetryableError e"
    and "operation (k - 1) = Inr v"
  shows "fst (execute pow cfg operation random context) = Returned v
       \<and> calls (snd (execute pow cfg operation random context)) = k"
proof -
  have fails: "\<forall>i. Suc i < k \<longrightarrow>
      (\<exists>e wr. operation i = Inl e \<and> wrap_thrown e = Some wr \<and> isRetryableError wr)"
  proof (intro allI impI)
    fix i assume "Suc i < k"
    then have "i < k - 1" by simp
    with assms(3) obtain e where "operation i = Inl e" "is_Error e" "isRetryableError e" by blast
    then show "\<exists>e wr. operation i = Inl e \<and> wrap_thrown e = Some wr \<and> isRetryableError wr"
      by (auto simp: wrap_thrown_Error)
  qed
  have stops: "\<forall>e wr. operation (k - 1) = Inl e \<and> wrap_thrown e = Some wr \<and> isRetryableError wr
                  \<longrightarrow> maxAttempts cfg \<le> int k"
    using assms(4) by simp
  have c: "calls (snd (execute pow cfg operation random context)) = k"
    by (rule execute_calls [OF assms(1,2) fails stops])
  from assms(1,2) have "1 \<le> maxAttempts cfg" by simp
  from execute_run [OF this, of pow operation random "context"] c assms(4)
  have "fst (execute pow cfg operation random context) = Returned v" by simp
  with c show ?thesis by simp
qed

theorem execute_recovers_witness:
  "fst (execute pow_rounded scenario_config
          (rejects_then_resolves 3 (JError ''Error'' ''timeout'') (JStr ''sent'')) random_zero None)
     = Returned (JStr ''sent'')
   \<and> calls (snd (execute pow_rounded scenario_config
          (rejects_then_resolves 3 (JError ''Error'' ''timeout'') (JStr ''sent'')) random_zero None))
     = 4"
proof -
  let ?op = "rejects_then_resolves 3 (JError ''Error'' ''timeout'') (JStr ''sent'')"
  have h1: "1 \<le> (4::nat)" by simp
  have h2: "int 4 \<le> maxAttempts scenario_config" by (simp add: scenario_config_def)
  have r: "isRetryableError (JError ''Error'' ''timeout'')" by code_simp
  have h3: "\<forall>i<4 - 1. \<exists>e. ?op i = Inl e \<and> is_Error e \<and> isRetryableError e"
    using r by (simp add: rejects_then_resolves_def)
  have h4: "?op (4 - 1) = Inr (JStr ''sent'')" by (simp add: rejects_then_resolves_def)
  from execute_recovers [OF h1 h2 h3 h4] show ?thesis by simp
qed

text \<open>
  C1, amended. For every policy with \<^verbatim>\<open>maxAttempts\<close> \<open>= N\<close>, \<open>N\<close> at least 1, and every
  operation that fails on every invocation with a retryable error (an \<^verbatim>\<open>Error\<close> that
  \<^verbatim>\<open>isRetryableError\<close> accepts), \<^verbatim>\<open>execute\<close> invokes the operation exactly \<open>N\<close> times and then
  raises
  \<^item> the last failure itself, which carries no count of attempts, when that failure is not an
    \<^verbatim>\<open>EmailError\<close>;
  \<^item> when it is an \<^verbatim>\<open>EmailError\<close>, a new error of the same class whose context merges
    \<^verbatim>\<open>{attempts: N, allErrors: [...]}\<close> (the \<open>N\<close> messages, oldest first), the caller's context
    and the failure's own context: it holds \<^verbatim>\<open>attempts\<close> \<open>= N\<close> and the list of length \<open>N\<close>
    under \<^verbatim>\<open>allErrors\<close> unless the caller's context or the failure's own context defines
    that key.
\<close>

theorem execute_exhausts_attempts:
  assumes "1 \<le> N" and "maxAttempts cfg = int N"
    and "\<forall>i<N. operation i = Inl (e i) \<and> is_Error (e i) \<and> isRetryableError (e i)"
  shows "calls (snd (execute pow cfg operation random context)) = N
       \<and> (\<not> is_EmailError (e (N - 1)) \<longrightarrow>
            fst (execute pow cfg operation random context) = Thrown (e (N - 1)))
       \<and> (e (N - 1) = JEmailError c msg cause ectx \<longrightarrow>
            fst (execute pow cfg operation random context) =
              Thrown (JEmailError c
                (''Operation failed after '' @ js_number_string (int N) @ '' attempts: '' @ msg)
                (Some (e (N - 1)))
                (Some (fmap_of_list
                         [(''attempts'', JNum (int N)),
                          (''allErrors'', JArray (map (\<lambda>i. js_message (e i)) [0..<N]))]
                       ++\<^sub>f own_props context ++\<^sub>f own_props ectx)))
            \<and> length (map (\<lambda>i. js_message (e i)) [0..<N]) = N
            \<and> (''attempts'' |\<notin>| fmdom (own_props context) |\<union>| fmdom (own_props ectx) \<longrightarrow>
                 fmlookup (fmap_of_list
                         [(''attempts'', JNum (int N)),
                          (''allErrors'', JArray (map (\<lambda>i. js_message (e i)) [0..<N]))]
                       ++\<^sub>f own_props context ++\<^sub>f own_props ectx) ''attempts''
                   = Some (JNum (int N)))
            \<and> (''allErrors'' |\<notin>| fmdom (own_props context) |\<union>| fmdom (own_props ectx) \<longrightarrow>
                 fmlookup (fmap_of_list
                         [(''attempts'', JNum (int N)),
                          (''allErrors'', JArray (map (\<lambda>i. js_message (e i)) [0..<N]))]
                       ++\<^sub>f own_props context ++\<^sub>f own_props ectx) ''allErrors''
                   = Some (JArray (map (\<lambda>i. js_message (e i)) [0..<N]))))"
proof -
  have max: "1 \<le> maxAttempts cfg" "int N \<le> maxAttempts cfg" using assms(1,2) by simp_all
  have wrap: "\<forall>i<N. wrap_thrown (e i) = Some (e i)"
    using assms(3) by (simp add: wrap_thrown_Error)
  have fails: "\<forall>i. Suc i < N \<longrightarrow>
      (\<exists>x wr. operation i = Inl x \<and> wrap_thrown x = Some wr \<and> isRetryableError wr)"
    using assms(3) wrap by auto
  have stops: "\<forall>x wr. operation (N - 1) = Inl x \<and> wrap_thrown x = Some wr \<and> isRetryableError wr
                  \<longrightarrow> maxAttempts cfg \<le> int N"
    using assms(2) by simp
  have c: "calls (snd (execute pow cfg operation random context)) = N"
    by (rule execute_calls [OF assms(1) max(2) fails stops])
  note run = execute_run [OF max(1), of pow operation random "context", unfolded c]
  from assms(1,3) wrap have last: "operation (N - 1) = Inl (e (N - 1))"
    "wrap_thrown (e (N - 1)) = Some (e (N - 1))" by simp_all
  have errs: "map (\<lambda>i. failure_of (operation i)) [0..<N] = map e [0..<N]"
    using assms(3) wrap by (simp add: failure_of_Inl)
  from run last have out: "fst (execute pow cfg operation random context) =
      Thrown (final_error \<lparr>attempt = int N, totalDelay = Fin 0, errors = map e [0..<N]\<rparr>
                context (e (N - 1)) (e (N - 1)))"
    unfolding errs by simp
  have raw: "\<not> is_EmailError (e (N - 1)) \<longrightarrow>
      fst (execute pow cfg operation random context) = Thrown (e (N - 1))"
    using out by (simp add: final_error_other)
  have wrapped: "e (N - 1) = JEmailError c msg cause ectx \<longrightarrow>
      fst (execute pow cfg operation random context) =
        Thrown (JEmailError c
          (''Operation failed after '' @ js_number_string (int N) @ '' attempts: '' @ msg)
          (Some (e (N - 1)))
          (Some (fmap_of_list
                   [(''attempts'', JNum (int N)),
                    (''allErrors'', JArray (map (\<lambda>i. js_message (e i)) [0..<N]))]
                 ++\<^sub>f own_props context ++\<^sub>f own_props ectx)))"
  proof
    assume eq: "e (N - 1) = JEmailError c msg cause ectx"
    show "fst (execute pow cfg operation random context) =
        Thrown (JEmailError c
          (''Operation failed after '' @ js_number_string (int N) @ '' attempts: '' @ msg)
          (Some (e (N - 1)))
          (Some (fmap_of_list
                   [(''attempts'', JNum (int N)),
                    (''allErrors'', JArray (map (\<lambda>i. js_message (e i)) [0..<N]))]
                 ++\<^sub>f own_props context ++\<^sub>f own_props ectx)))"
      unfolding out eq final_error_EmailError by (simp add: comp_def)
  qed
  from c raw wrapped show ?thesis by simp
qed

text \<open>An operation that always fails with a \<^verbatim>\<open>RateLimitError\<close>, under the template policy.\<close>

theorem execute_exhausts_attempts_witness:
  "calls (snd (execute pow_rounded RetryConfigs_template
                 (always_rejects (JEmailError RateLimitError ''slow down'' None None))
                 random_zero None)) = 2
   \<and> fst (execute pow_rounded RetryConfigs_template
            (always_rejects (JEmailError RateLimitError ''slow down'' None None))
            random_zero None)
     = Thrown (JEmailError RateLimitError ''Operation failed after 2 attempts: slow down''
         (Some (JEmailError RateLimitError ''slow down'' None None))
         (Some (fmap_of_list
                  [(''attempts'', JNum 2),
                   (''allErrors'', JArray [JStr ''slow down'', JStr ''slow down''])])))"
proof -
  let ?E = "JEmailError RateLimitError ''slow down'' None None"
  have h1: "1 \<le> (2::nat)" by simp
  have h2: "maxAttempts RetryConfigs_template = int 2" by (simp add: RetryConfigs_template_def)
  have r: "isRetryableError ?E" by code_simp
  have h3: "\<forall>i<2. always_rejects ?E i = Inl ((\<lambda>i. ?E) i) \<and> is_Error ((\<lambda>i. ?E) i)
              \<and> isRetryableError ((\<lambda>i. ?E) i)"
    using r by (simp add: always_rejects_def)
  have upt: "[0..<2] = [0, Suc 0]" by (simp add: upt_conv_Cons)
  have num: "js_number_string 2 = ''2''" by code_simp
  from execute_exhausts_attempts [OF h1 h2 h3, of pow_rounded random_zero None RateLimitError "''slow down''" None None]
  show ?thesis
    by (simp add: upt num own_props_def)
qed

text \<open>
  The claim as first stated promises the context for every retryable error. A plain
  \<^verbatim>\<open>Error\<close> with the message \<^verbatim>\<open>timeout\<close> is retryable, the operation is invoked twice under
  the template policy, and the error raised is that \<^verbatim>\<open>Error\<close>, which has no context.
\<close>

theorem execute_exhausts_attempts_counterexample:
  "maxAttempts RetryConfigs_template = 2
   \<and> is_Error (JError ''Error'' ''timeout'')
   \<and> isRetryableError (JError ''Error'' ''timeout'')
   \<and> calls (snd (execute pow_rounded RetryConfigs_template
                    (always_rejects (JError ''Error'' ''timeout'')) random_zero None)) = 2
   \<and> fst (execute pow_rounded RetryConfigs_template
            (always_rejects (JError ''Error'' ''timeout'')) random_zero None)
     = Thrown (JError ''Error'' ''timeout'')"
  by code_simp

text \<open>
  C2. When \<^verbatim>\<open>execute\<close> gives up after \<open>n\<close> invocations (which failed with \<open>e 0\<close>, ...,
  \<open>e (n - 1)\<close>, recorded as the errors \<open>wr 0\<close>, ..., \<open>wr (n - 1)\<close>) and the last failure is an
  \<^verbatim>\<open>EmailError\<close>, the error it raises is a new instance of the same class with the message
  \<^verbatim>\<open>Operation failed after n attempts: \<close> followed by the original message, with the original
  failure as its cause, and with the context that merges \<^verbatim>\<open>{attempts, allErrors}\<close>, the
  caller's context and the original failure's own context, in this order: on a key that
  several of them define, the original failure's value wins, then the caller's.
\<close>

theorem execute_rewraps_EmailError:
  assumes "fst (execute pow cfg operation random context) = Thrown v"
    and "calls (snd (execute pow cfg operation random context)) = n"
    and "\<forall>i<n. operation i = Inl (e i) \<and> wrap_thrown (e i) = Some (wr i)"
    and "e (n - 1) = JEmailError c msg cause ectx"
  shows "v = JEmailError c
             (''Operation failed after '' @ js_number_string (int n) @ '' attempts: '' @ msg)
             (Some (e (n - 1)))
             (Some (fmap_of_list
                      [(''attempts'', JNum (int n)),
                       (''allErrors'', JArray (map (\<lambda>i. js_message (wr i)) [0..<n]))]
                    ++\<^sub>f own_props context ++\<^sub>f own_props ectx))
       \<and> (\<forall>k. k |\<in>| fmdom (own_props ectx) \<longrightarrow>
             fmlookup (fmap_of_list
                      [(''attempts'', JNum (int n)),
                       (''allErrors'', JArray (map (\<lambda>i. js_message (wr i)) [0..<n]))]
                    ++\<^sub>f own_props context ++\<^sub>f own_props ectx) k
               = fmlookup (own_props ectx) k)
       \<and> (\<forall>k. k |\<notin>| fmdom (own_props ectx) \<and> k |\<in>| fmdom (own_props context) \<longrightarrow>
             fmlookup (fmap_of_list
                      [(''attempts'', JNum (int n)),
                       (''allErrors'', JArray (map (\<lambda>i. js_message (wr i)) [0..<n]))]
                    ++\<^sub>f own_props context ++\<^sub>f own_props ectx) k
               = fmlookup (own_props context) k)"
proof -
  from assms(1) have "1 \<le> maxAttempts cfg" by (rule execute_Thrown_attempts)
  note run = execute_run [OF this, of pow operation random "context", unfolded assms(2)]
  from run have n: "1 \<le> n" by simp
  with assms(3) have last: "operation (n - 1) = Inl (e (n - 1))"
    "wrap_thrown (e (n - 1)) = Some (wr (n - 1))" by simp_all
  have errs: "map (\<lambda>i. failure_of (operation i)) [0..<n] = map wr [0..<n]"
    using assms(3) by (simp add: failure_of_Inl)
  from run last assms(1) have
    "v = final_error \<lparr>attempt = int n, totalDelay = Fin 0,
                      errors = map (\<lambda>i. failure_of (operation i)) [0..<n]\<rparr>
           context (e (n - 1)) (wr (n - 1))"
    by simp
  then have "v = JEmailError c
             (''Operation failed after '' @ js_number_string (int n) @ '' attempts: '' @ msg)
             (Some (e (n - 1)))
             (Some (fmap_of_list
                      [(''attempts'', JNum (int n)),
                       (''allErrors'', JArray (map (\<lambda>i. js_message (wr i)) [0..<n]))]
                    ++\<^sub>f own_props context ++\<^sub>f own_props ectx))"
    unfolding errs assms(4) final_error_EmailError by (simp add: comp_def)
  then show ?thesis by simp
qed

text \<open>
  Two attempts under the template policy; the failure's own context and the caller's both
  define \<^verbatim>\<open>host\<close>, and the failure's own context defines \<^verbatim>\<open>attempts\<close>.
\<close>

theorem execute_rewraps_EmailError_witness:
  "fst (execute pow_rounded RetryConfigs_template
          (always_rejects (JEmailError SMTPConnectionError ''down'' None
                             (Some (fmap_of_list [(''host'', JStr ''mx''), (''attempts'', JNum 7)]))))
          random_zero (Some (fmap_of_list [(''host'', JStr ''caller''), (''operation'', JStr ''send'')])))
   = Thrown (JEmailError SMTPConnectionError ''Operation failed after 2 attempts: down''
       (Some (JEmailError SMTPConnectionError ''down'' None
                (Some (fmap_of_list [(''host'', JStr ''mx''), (''attempts'', JNum 7)]))))
       (Some (fmap_of_list
                 [(''attempts'', JNum 2), (''allErrors'', JArray [JStr ''down'', JStr ''down''])]
               ++\<^sub>f fmap_of_list [(''host'', JStr ''caller''), (''operation'', JStr ''send'')]
               ++\<^sub>f fmap_of_list [(''host'', JStr ''mx''), (''attempts'', JNum 7)])))"
proof -
  let ?E = "JEmailError SMTPConnectionError ''down'' None
              (Some (fmap_of_list [(''host'', JStr ''mx''), (''attempts'', JNum 7)]))"
  let ?ctx = "Some (fmap_of_list [(''host'', JStr ''caller''), (''operation'', JStr ''send'')])"
  let ?run = "execute pow_rounded RetryConfigs_template (always_rejects ?E) random_zero ?ctx"
  obtain v where v: "fst ?run = Thrown v"
    by (rule that [of "final_error \<lparr>attempt = 2, totalDelay = Fin 0, errors = [?E, ?E]\<rparr> ?ctx ?E ?E"])
       code_simp
  have h2: "calls (snd ?run) = 2" by code_simp
  have h3: "\<forall>i<2. always_rejects ?E i = Inl ((\<lambda>i. ?E) i) \<and> wrap_thrown ((\<lambda>i. ?E) i) = Some ((\<lambda>i. ?E) i)"
    by (simp add: always_rejects_def wrap_thrown_def)
  have h4: "(\<lambda>i. ?E) (2 - 1) = ?E" by simp
  have upt: "[0..<2] = [0, Suc 0]" by (simp add: upt_conv_Cons)
  have num: "js_number_string 2 = ''2''" by code_simp
  from execute_rewraps_EmailError [OF v h2 h3 h4, THEN conjunct1] v show ?thesis
    by (simp add: upt num own_props_def)
qed

text \<open>
  C6, amended. When \<^verbatim>\<open>execute\<close> gives up and the last failure is not an \<^verbatim>\<open>EmailError\<close>,
  it raises, without any context of attempts,
  \<^item> the original failure itself, unchanged, when that failure is an \<^verbatim>\<open>Error\<close>;
  \<^item> otherwise (a string, a number or another value that is not an \<^verbatim>\<open>Error\<close>) a new
    \<^verbatim>\<open>Error\<close> whose message is \<^verbatim>\<open>String(value)\<close>, or the \<^verbatim>\<open>TypeError\<close> of that conversion
    when the value cannot be converted.
\<close>

theorem execute_rethrows_other_failures:
  assumes "fst (execute pow cfg operation random context) = Thrown v"
    and "calls (snd (execute pow cfg operation random context)) = n"
    and "operation (n - 1) = Inl e"
    and "\<not> is_EmailError e"
  shows "(is_Error e \<longrightarrow> v = e)
       \<and> (\<not> is_Error e \<longrightarrow>
            v = (case js_String e of
                   None \<Rightarrow> to_primitive_TypeError
                 | Some s \<Rightarrow> JError ''Error'' s))"
proof -
  from assms(1) have "1 \<le> maxAttempts cfg" by (rule execute_Thrown_attempts)
  note run = execute_run [OF this, of pow operation random "context", unfolded assms(2)]
  show ?thesis
  proof (cases "wrap_thrown e")
    case None
    with run assms(1,3) have "v = to_primitive_TypeError" by simp
    with None show ?thesis by (auto simp: wrap_thrown_def split: if_splits)
  next
    case (Some wr)
    with run assms(1,3,4) have "v = wr" by (simp add: final_error_other)
    with Some show ?thesis by (auto simp: wrap_thrown_def split: if_splits)
  qed
qed

text \<open>An \<^verbatim>\<open>Error\<close> that is not retryable is raised as it is after one invocation.\<close>

theorem execute_rethrows_other_failures_witness:
  "fst (execute pow_rounded RetryConfigs_template (always_rejects (JError ''Error'' ''Invalid argument''))
          random_zero None)
     = Thrown (JError ''Error'' ''Invalid argument'')
   \<and> calls (snd (execute pow_rounded RetryConfigs_template
                    (always_rejects (JError ''Error'' ''Invalid argument'')) random_zero None)) = 1"
proof -
  let ?E = "JError ''Error'' ''Invalid argument''"
  let ?run = "execute pow_rounded RetryConfigs_template (always_rejects ?E) random_zero None"
  obtain v where v: "fst ?run = Thrown v"
    by (rule that [of ?E]) code_simp
  have h2: "calls (snd ?run) = 1" by code_simp
  have h3: "always_rejects ?E (1 - 1) = Inl ?E" by (simp add: always_rejects_def)
  have h4: "\<not> is_EmailError ?E" by simp
  from execute_rethrows_other_failures [OF v h2 h3 h4] v h2 show ?thesis by simp
qed

text \<open>
  The claim as first stated includes values that are not \<^verbatim>\<open>Error\<close>s. A thrown string
  \<^verbatim>\<open>boom\<close> is not raised unchanged: what \<^verbatim>\<open>execute\<close> raises is \<^verbatim>\<open>new Error("boom")\<close>.
\<close>

theorem execute_rethrows_other_failures_counterexample:
  "\<not> is_EmailError (JStr ''boom'')
   \<and> fst (execute pow_rounded RetryConfigs_template (always_rejects (JStr ''boom'')) random_zero None)
       = Thrown (JError ''Error'' ''boom'')
   \<and> JError ''Error'' ''boom'' \<noteq> JStr ''boom''"
  by code_simp

text \<open>
  C3, amended. For every policy with \<^verbatim>\<open>jitter = false\<close>, \<^verbatim>\<open>initialDelay\<close> \<open>d\<close> and
  \<^verbatim>\<open>backoffMultiplier\<close> \<open>m\<close>, the \<open>k\<close>-th delay that \<^verbatim>\<open>execute\<close> sleeps (between attempt \<open>k\<close>
  and attempt \<open>k + 1\<close>, so that \<open>k\<close> is less than \<^verbatim>\<open>maxAttempts\<close>) is computed in the
  arithmetic of numbers and rounded to a whole number: it is
  \<^verbatim>\<open>Math.max(0, Math.round(Math.min(d * Math.pow(m, k - 1), maxDelay)))\<close>. It equals
  \<open>min (d * m ^ (k - 1)) maxDelay\<close> whenever \<^verbatim>\<open>Math.pow\<close> returns the power \<open>m ^ (k - 1)\<close>
  itself, the product \<open>d * m ^ (k - 1)\<close> is an integer of magnitude at most \<open>2 ^ 53\<close> (which
  the multiplication then yields without error) and the minimum is an integer that is not
  negative.
\<close>

theorem execute_delays_without_jitter:
  assumes "\<not> jitter cfg" and "1 \<le> k"
    and "k \<le> length (sleeps (snd (execute pow cfg operation random context)))"
  shows "sleeps (snd (execute pow cfg operation random context)) ! (k - 1) =
           Math_max (Fin 0)
             (Math_round
                (Math_min (num_mul (initialDelay cfg) (pow (backoffMultiplier cfg) (int k - 1)))
                   (maxDelay cfg)))
       \<and> (initialDelay cfg = Fin d \<and> backoffMultiplier cfg = Fin m \<and> maxDelay cfg = Fin M
            \<and> pow (Fin m) (int k - 1) = Fin (m ^ (k - 1))
            \<and> d * m ^ (k - 1) = real_of_int p \<and> \<bar>p\<bar> \<le> 2 ^ 53
            \<and> min (d * m ^ (k - 1)) M = real_of_int n \<and> 0 \<le> n \<longrightarrow>
          sleeps (snd (execute pow cfg operation random context)) ! (k - 1) = Fin (real_of_int n))
       \<and> int k < maxAttempts cfg"
proof -
  let ?w = "snd (execute pow cfg operation random context)"
  note sl = execute_sleeps [of pow cfg operation random "context"]
  from assms(2,3) have k: "k - 1 < length (sleeps ?w)" by simp
  with sl have "sleeps ?w ! (k - 1) =
      calculateDelay pow cfg (int (k - 1) + 1) (random (if jitter cfg then k - 1 else 0))"
    by blast
  moreover have "int (k - 1) + 1 - 1 = int k - 1" using assms(2) by simp
  ultimately have dl: "sleeps ?w ! (k - 1) =
      Math_max (Fin 0)
        (Math_round
           (Math_min (num_mul (initialDelay cfg) (pow (backoffMultiplier cfg) (int k - 1)))
              (maxDelay cfg)))"
    using assms(1) by (simp add: calculateDelay_no_jitter)
  have exact: "sleeps ?w ! (k - 1) = Fin (real_of_int n)"
    if "initialDelay cfg = Fin d" "backoffMultiplier cfg = Fin m" "maxDelay cfg = Fin M"
      "pow (Fin m) (int k - 1) = Fin (m ^ (k - 1))"
      "d * m ^ (k - 1) = real_of_int p" "\<bar>p\<bar> \<le> 2 ^ 53"
      "min (d * m ^ (k - 1)) M = real_of_int n" "0 \<le> n"
  proof -
    have "num_mul (initialDelay cfg) (pow (backoffMultiplier cfg) (int k - 1)) = Fin (d * m ^ (k - 1))"
      using that(1,2,4,5) fl_of_int [OF that(6)] by simp
    then have "Math_min (num_mul (initialDelay cfg) (pow (backoffMultiplier cfg) (int k - 1)))
                 (maxDelay cfg) = Fin (real_of_int n)"
      using that(3,7) by simp
    with dl that(8) show ?thesis by simp
  qed
  have "1 \<le> maxAttempts cfg"
  proof (rule ccontr)
    assume "\<not> 1 \<le> maxAttempts cfg"
    then have "maxAttempts cfg \<le> 0" by simp
    from execute_no_attempts [OF this, of pow operation random "context"] k show False by simp
  qed
  with sl have len: "Suc (length (sleeps ?w)) = calls ?w" by blast
  from execute_run [OF \<open>1 \<le> maxAttempts cfg\<close>, of pow operation random "context"]
  have "int (calls ?w) \<le> maxAttempts cfg" by simp
  with len assms(3) have lt: "int k < maxAttempts cfg" by linarith
  from dl exact lt show ?thesis by blast
qed

text \<open>
  The first scenario of the specification: three failures, then a success, and the delays
  100, 200 and 400; the third one is the instance.
\<close>

theorem execute_delays_without_jitter_witness:
  "length (sleeps (snd (execute pow_rounded scenario_config
       (rejects_then_resolves 3 (JError ''Error'' ''timeout'') (JStr ''sent'')) random_zero None))) = 3
   \<and> sleeps (snd (execute pow_rounded scenario_config
       (rejects_then_resolves 3 (JError ''Error'' ''timeout'') (JStr ''sent'')) random_zero None)) ! 2
     = Fin 400"
proof -
  let ?run = "execute pow_rounded scenario_config
       (rejects_then_resolves 3 (JError ''Error'' ''timeout'') (JStr ''sent'')) random_zero None"
  have h1: "\<not> jitter scenario_config" by (simp add: scenario_config_def)
  have h2: "1 \<le> (3::nat)" by simp
  have len: "length (sleeps (snd ?run)) = 3" by code_simp
  then have h3: "3 \<le> length (sleeps (snd ?run))" by simp
  have ex: "pow_rounded (Fin 2) (int 3 - 1) = Fin (2 ^ (3 - 1))" by code_simp
  have hyp: "initialDelay scenario_config = Fin 100 \<and> backoffMultiplier scenario_config = Fin 2
      \<and> maxDelay scenario_config = Fin 1000
      \<and> pow_rounded (Fin 2) (int 3 - 1) = Fin (2 ^ (3 - 1))
      \<and> 100 * 2 ^ (3 - 1) = real_of_int 400 \<and> \<bar>400 :: int\<bar> \<le> 2 ^ 53
      \<and> min (100 * 2 ^ (3 - 1)) 1000 = real_of_int 400 \<and> (0::int) \<le> 400"
    using ex by (simp add: scenario_config_def)
  from execute_delays_without_jitter [OF h1 h2 h3, of 100 2 1000 400 400,
         THEN conjunct2, THEN conjunct1, rule_format, OF hyp]
  have "sleeps (snd ?run) ! (3 - 1) = Fin (real_of_int 400)" .
  with len show ?thesis by simp
qed

text \<open>
  The claim as first stated has no rounding to a whole number. With \<^verbatim>\<open>initialDelay = 1\<close> and
  the multiplier 1.5 of the connection policy, the second delay is 2, and
  \<open>min (d * m ^ (2 - 1)) maxDelay\<close> is 1.5.
\<close>

theorem execute_delays_without_jitter_counterexample:
  "\<not> jitter (RetryConfigs_connection\<lparr>initialDelay := Fin 1, jitter := False\<rparr>)
   \<and> 2 < maxAttempts (RetryConfigs_connection\<lparr>initialDelay := Fin 1, jitter := False\<rparr>)
   \<and> initialDelay (RetryConfigs_connection\<lparr>initialDelay := Fin 1, jitter := False\<rparr>) = Fin 1
   \<and> backoffMultiplier (RetryConfigs_connection\<lparr>initialDelay := Fin 1, jitter := False\<rparr>) = Fin (3 / 2)
   \<and> maxDelay (RetryConfigs_connection\<lparr>initialDelay := Fin 1, jitter := False\<rparr>) = Fin 30000
   \<and> sleeps (snd (execute pow_rounded (RetryConfigs_connection\<lparr>initialDelay := Fin 1, jitter := False\<rparr>)
                    (always_rejects (JError ''Error'' ''timeout'')) random_zero None)) ! (2 - 1) = Fin 2
   \<and> min ((1::real) * (3 / 2) ^ (2 - 1)) 30000 = 3 / 2"
  by code_simp

section \<open>Properties of \<^verbatim>\<open>calculateDelay\<close>\<close>




section \<open>Properties of the error taxonomy\<close>

text \<open>
  C4. \<^verbatim>\<open>isRetryableError\<close> returns, for every \<^verbatim>\<open>EmailError\<close>, the \<^verbatim>\<open>retryable\<close> flag that its
  class fixes; and for every other value whose \<^verbatim>\<open>message\<close> is a string, it returns true if
  and only if the message contains, letter case ignored, one of \<^verbatim>\<open>ETIMEDOUT\<close>,
  \<^verbatim>\<open>ECONNRESET\<close>, \<^verbatim>\<open>ENOTFOUND\<close>, \<^verbatim>\<open>ECONNREFUSED\<close>, \<^verbatim>\<open>timeout\<close>, \<^verbatim>\<open>network\<close>.
\<close>

theorem isRetryableError_predicate:
  "isRetryableError (JEmailError c m cause ectx) = retryable c
   \<and> (\<not> is_EmailError v \<and> js_message v = JStr msg \<longrightarrow>
        isRetryableError v = (\<exists>p\<in>set transientMessages. contains_ignoring_case msg p))"
proof -
  have first: "isRetryableError (JEmailError c m cause ectx) = retryable c"
    by (simp add: isRetryableError_def)
  have second: "isRetryableError v = (\<exists>p\<in>set transientMessages. contains_ignoring_case msg p)"
    if "\<not> is_EmailError v" and "js_message v = JStr msg"
  proof (cases v)
    case (JObject props)
    with that(2) have "fmlookup props ''message'' = Some (JStr msg)"
      by (simp split: option.splits)
    then have "''message'' |\<in>| fmdom props" by (rule fmdomI)
    with JObject that(2) show ?thesis
      unfolding isRetryableError_def by (simp add: list_ex_transient)
  next
    case (JError name m')
    with that(2) show ?thesis
      unfolding isRetryableError_def by (simp add: list_ex_transient)
  qed (use that in simp_all)
  from first second show ?thesis by blast
qed

text \<open>Three values from the test suite: one of each kind.\<close>

theorem isRetryableError_predicate_witness:
  "isRetryableError (JEmailError RateLimitError ''slow down'' None None) = True
   \<and> isRetryableError (JError ''Error'' ''Connection EConnReset'') = True
   \<and> isRetryableError (JError ''Error'' ''Permission denied'') = False"
proof -
  have p: "''ECONNRESET'' \<in> set transientMessages" by (simp add: transientMessages_def)
  have "js_includes (toLowerCase ''Connection EConnReset'') (toLowerCase ''ECONNRESET'')"
    by code_simp
  then have yes: "contains_ignoring_case ''Connection EConnReset'' ''ECONNRESET''"
    by (simp add: includes_lower_iff)
  have "\<not> list_ex (\<lambda>msg. js_includes (toLowerCase ''Permission denied'') (toLowerCase msg))
           transientMessages"
    by code_simp
  then have no: "\<not> (\<exists>p\<in>set transientMessages. contains_ignoring_case ''Permission denied'' p)"
    by (simp add: list_ex_transient)
  have a: "\<not> is_EmailError (JError ''Error'' ''Connection EConnReset'')
           \<and> js_message (JError ''Error'' ''Connection EConnReset'') = JStr ''Connection EConnReset''"
    by simp
  have b: "\<not> is_EmailError (JError ''Error'' ''Permission denied'')
           \<and> js_message (JError ''Error'' ''Permission denied'') = JStr ''Permission denied''"
    by simp
  have r: "retryable RateLimitError" by simp
  from isRetryableError_predicate [of RateLimitError "''slow down''" None None
         "JError ''Error'' ''Connection EConnReset''" "''Connection EConnReset''"]
       isRetryableError_predicate [of RateLimitError "''slow down''" None None
         "JError ''Error'' ''Permission denied''" "''Permission denied''"]
       a b p yes no r
  show ?thesis by blast
qed

text \<open>
  C5. For every \<^verbatim>\<open>Error\<close> that is not an \<^verbatim>\<open>EmailError\<close>, classification lower-cases the
  message and maps it by substring: \<^verbatim>\<open>auth\<close>, \<^verbatim>\<open>login\<close> or \<^verbatim>\<open>password\<close> yields the
  authentication class (not retryable); \<^verbatim>\<open>connect\<close>, \<^verbatim>\<open>timeout\<close> or \<^verbatim>\<open>enotfound\<close> yields
  the connection class (retryable); every other message yields \<^verbatim>\<open>EmailSendError\<close>
  (retryable). The classifier of the transport does so
  (\<open>categorizeSmtpError_generic_Error\<close>); \<^verbatim>\<open>wrapError\<close> looks for \<^verbatim>\<open>auth\<close> and \<^verbatim>\<open>connect\<close>
  only (\<open>wrapError_generic_Error\<close>). On the message \<^verbatim>\<open>login failed\<close> the two differ:
  \<^verbatim>\<open>wrapError\<close> answers with a retryable \<^verbatim>\<open>EmailSendError\<close> where the claim and
  \<^verbatim>\<open>categorizeSmtpError\<close> have the authentication class.
\<close>

theorem wrapError_misses_login:
  "js_includes (toLowerCase ''login failed'') ''login''
   \<and> wrapError (JError ''Error'' ''login failed'') None =
       Inr (JEmailError EmailSendError ''Email operation failed: login failed''
              (Some (JError ''Error'' ''login failed'')) None)
   \<and> retryable EmailSendError
   \<and> categorizeSmtpError (JError ''Error'' ''login failed'') None =
       Inr (JEmailError SMTPAuthenticationError ''SMTP authentication failed: login failed''
              (Some (JError ''Error'' ''login failed'')) None)
   \<and> \<not> retryable SMTPAuthenticationError"
  by code_simp

text \<open>
  C8, amended. For every failure value that is not an \<^verbatim>\<open>Error\<close> (a string, a number, a
  plain object, \<^verbatim>\<open>null\<close>, \<^verbatim>\<open>undefined\<close>) and that \<^verbatim>\<open>String\<close> converts to \<open>s\<close>, \<^verbatim>\<open>wrapError\<close>
  produces an \<^verbatim>\<open>EmailSendError\<close> with the message \<^verbatim>\<open>Unknown error occurred: \<close> followed by
  \<open>s\<close>, with no cause and with the supplied context. Its \<^verbatim>\<open>retryable\<close> flag is the one of
  \<^verbatim>\<open>EmailSendError\<close>, which is true.
\<close>

theorem wrapError_non_Error:
  assumes "\<not> is_Error v" and "js_String v = Some s"
  shows "wrapError v context =
           Inr (JEmailError EmailSendError (''Unknown error occurred: '' @ s) None context)
       \<and> retryable EmailSendError
       \<and> isRetryableError
           (JEmailError EmailSendError (''Unknown error occurred: '' @ s) None context)"
  using assms by (simp add: wrapError_other isRetryableError_def)

text \<open>The number and the object of the test suite.\<close>

theorem wrapError_non_Error_witness:
  "wrapError (JNum 500) None =
     Inr (JEmailError EmailSendError ''Unknown error occurred: 500'' None None)
   \<and> wrapError (JObject (fmap_of_list [(''code'', JStr ''UNKNOWN''), (''message'', JStr ''Something failed'')])) None =
     Inr (JEmailError EmailSendError ''Unknown error occurred: [object Object]'' None None)"
proof -
  have h1: "\<not> is_Error (JNum 500)" by simp
  have h2: "js_String (JNum 500) = Some ''500''" by code_simp
  let ?o = "JObject (fmap_of_list [(''code'', JStr ''UNKNOWN''), (''message'', JStr ''Something failed'')])"
  have h3: "\<not> is_Error ?o" by simp
  have h4: "js_String ?o = Some ''[object Object]''" by code_simp
  from wrapError_non_Error [OF h1 h2, of None] wrapError_non_Error [OF h3 h4, of None]
  show ?thesis by simp
qed

text \<open>
  The claim as first stated has \<^verbatim>\<open>retryable = false\<close>. The string of the test suite is
  classified as an \<^verbatim>\<open>EmailSendError\<close>, whose flag is true, and \<^verbatim>\<open>isRetryableError\<close> accepts
  the result.
\<close>

theorem wrapError_non_Error_counterexample:
  "\<not> is_Error (JStr ''Something went wrong'')
   \<and> wrapError (JStr ''Something went wrong'') None =
       Inr (JEmailError EmailSendError ''Unknown error occurred: Something went wrong'' None None)
   \<and> retryable EmailSendError = True
   \<and> isRetryableError
       (JEmailError EmailSendError ''Unknown error occurred: Something went wrong'' None None) = True"
  by code_simp

end
